theory Spec2Isabelle
  imports Complex_Main "HOL-Library.Multiset"
begin

section \<open>Data model\<close>

text \<open>
  The embedding follows \<open>characterize_phase_space\<close> of \<open>extras/helpers.py\<close>.
  Python floats are idealised as real numbers (complex floats as complex
  numbers) and one-dimensional numpy arrays as lists.

  A track record is the turn-by-turn history of one tracked particle (row 0 of
  the monitor). The monitor keeps \<open>x\<close>, \<open>px\<close> and \<open>state\<close> in arrays of one
  shape, so a record is a list of samples, one per turn.
\<close>

datatype error = ValueError | IndexError

record sample =
  s_x :: real
  s_px :: real
  s_state :: int

type_synonym track_record = "sample list"

record norm_sample =
  x_norm :: real
  px_norm :: real

type_synonym norm_record = "norm_sample list"

text \<open>
  The line is an external collaborator. \<open>track\<close> is what \<open>build_particles\<close>,
  \<open>line.track\<close> and \<open>record_last_track\<close> give for one particle started at
  offset \<open>x\<close> (all other coordinates zero) and a turn count; \<open>track_many\<close> is
  the same for a family of offsets. A deterministic tracker is a function.
  \<open>normalize r i\<close> is the normalized coordinate that the twiss table assigns to
  turn \<open>i\<close> of record \<open>r\<close>; the normalized record has the shape of the record
  it is derived from.
\<close>

record line =
  track :: "real \<Rightarrow> nat \<Rightarrow> track_record"
  track_many :: "real list \<Rightarrow> nat \<Rightarrow> track_record list"
  normalize :: "track_record \<Rightarrow> nat \<Rightarrow> norm_sample"

definition get_normalized_coordinates :: "line \<Rightarrow> track_record \<Rightarrow> norm_record" where
  "get_normalized_coordinates line r = map (normalize line r) [0..<length r]"

record result =
  stable_area :: real
  dpx_dx_at_septum :: real
  x_fixed_points :: "real list"
  px_fixed_points :: "real list"
  x_norm_fixed_points :: "real list"
  px_norm_fixed_points :: "real list"

definition x_septum :: real where
  "x_septum = 35 / 1000"

definition num_turns :: nat where
  "num_turns = 1000"

definition tolerance :: real where
  "tolerance = 1 / 1000000"

text \<open>A raised exception ends the call: the rest of the computation is skipped.\<close>

definition and_then :: "error + 'a \<Rightarrow> ('a \<Rightarrow> error + 'b) \<Rightarrow> error + 'b" where
  "and_then r f = (case r of Inl e \<Rightarrow> Inl e | Inr v \<Rightarrow> f v)"

section \<open>numpy operations used by the source\<close>

text \<open>\<open>np.linspace(start, stop, num)\<close>\<close>

definition linspace :: "real \<Rightarrow> real \<Rightarrow> nat \<Rightarrow> real list" where
  "linspace start stop num =
     map (\<lambda>i. start + real i * ((stop - start) / real (num - 1))) [0..<num]"

text \<open>
  \<open>np.argmax\<close> and \<open>np.argmin\<close> return the index of the first occurrence of
  the extreme value and raise \<open>ValueError\<close> on an empty array.
\<close>

fun first_max :: "real list \<Rightarrow> nat" where
  "first_max [] = 0"
| "first_max (v # vs) =
     (if vs = [] then 0
      else let k = first_max vs in if vs ! k \<le> v then 0 else Suc k)"

fun first_min :: "real list \<Rightarrow> nat" where
  "first_min [] = 0"
| "first_min (v # vs) =
     (if vs = [] then 0
      else let k = first_min vs in if v \<le> vs ! k then 0 else Suc k)"

definition argmax :: "real list \<Rightarrow> error + nat" where
  "argmax vs = (if vs = [] then Inl ValueError else Inr (first_max vs))"

definition argmin :: "real list \<Rightarrow> error + nat" where
  "argmin vs = (if vs = [] then Inl ValueError else Inr (first_min vs))"

text \<open>
  \<open>a[i]\<close> for a signed index: a negative index counts from the end of the
  array, and only an index outside \<open>-n \<le> i < n\<close> raises \<open>IndexError\<close>.
\<close>

definition np_index :: "'a list \<Rightarrow> int \<Rightarrow> error + 'a" where
  "np_index a i =
     (let n = int (length a)
      in if 0 \<le> i \<and> i < n then Inr (a ! nat i)
         else if - n \<le> i \<and> i < 0 then Inr (a ! nat (n + i))
         else Inl IndexError)"

text \<open>\<open>a[idx]\<close> for an array \<open>idx\<close> of non-negative indices.\<close>

definition fancy_index :: "'a list \<Rightarrow> nat list \<Rightarrow> error + 'a list" where
  "fancy_index a idx =
     (if list_all (\<lambda>i. i < length a) idx then Inr (map (\<lambda>i. a ! i) idx)
      else Inl IndexError)"

text \<open>\<open>a[mask]\<close> for a boolean mask, which must have the shape of \<open>a\<close>.\<close>

definition mask_select :: "'a list \<Rightarrow> bool list \<Rightarrow> error + 'a list" where
  "mask_select a msk =
     (if length msk = length a then Inr (map fst (filter snd (zip a msk)))
      else Inl IndexError)"

text \<open>\<open>a[ii::3]\<close>\<close>

fun every_third :: "'a list \<Rightarrow> 'a list" where
  "every_third [] = []"
| "every_third (v # vs) = v # every_third (drop 2 vs)"

definition stride3 :: "nat \<Rightarrow> 'a list \<Rightarrow> 'a list" where
  "stride3 ii a = every_third (drop ii a)"

text \<open>
  \<open>np.argsort\<close>: the indices that sort the keys in ascending order (ties are
  kept in their original order here). \<open>np.angle\<close> of \<open>x + 1j * y\<close> is the
  argument of the complex number in \<open>(-pi, pi]\<close>, and 0 at the origin.
\<close>

definition argsort :: "real list \<Rightarrow> nat list" where
  "argsort ks = sort_key (\<lambda>i. ks ! i) [0..<length ks]"

definition angle :: "complex \<Rightarrow> real" where
  "angle z = Arg z"

text \<open>
  \<open>np.polyfit(xs, ys, deg=1)\<close> on two points with distinct abscissae: the line
  through them, as (slope, intercept). \<open>np.polyval\<close> evaluates it.
\<close>

definition polyfit_deg1 :: "real \<times> real \<Rightarrow> real \<times> real \<Rightarrow> real \<times> real" where
  "polyfit_deg1 xs ys =
     (let slope = (snd ys - fst ys) / (snd xs - fst xs)
      in (slope, fst ys - slope * fst xs))"

definition polyval :: "real \<times> real \<Rightarrow> real \<Rightarrow> real" where
  "polyval p v = fst p * v + snd p"

text \<open>\<open>np.linalg.det\<close> of a matrix given by its three rows.\<close>

definition det3 :: "real list \<Rightarrow> real list \<Rightarrow> real list \<Rightarrow> real" where
  "det3 a b c =
     a ! 0 * (b ! 1 * c ! 2 - b ! 2 * c ! 1)
     - a ! 1 * (b ! 0 * c ! 2 - b ! 2 * c ! 0)
     + a ! 2 * (b ! 0 * c ! 1 - b ! 1 * c ! 0)"

section \<open>Separatrix locator\<close>

text \<open>\<open>(rec_test.x > x_septum).any()\<close>\<close>

definition is_unstable :: "track_record \<Rightarrow> bool" where
  "is_unstable rec_test = list_ex (\<lambda>s. s_x s > x_septum) rec_test"

definition unstable_at :: "line \<Rightarrow> real \<Rightarrow> bool" where
  "unstable_at line x_test = is_unstable (track line x_test num_turns)"

text \<open>One pass through the body of the \<open>while\<close> loop.\<close>

definition bisect_step :: "(real \<Rightarrow> bool) \<Rightarrow> real \<times> real \<Rightarrow> real \<times> real" where
  "bisect_step unstable b =
     (let x_stable = fst b; x_unstable = snd b;
          x_test = (x_stable + x_unstable) / 2
      in if unstable x_test then (x_stable, x_test) else (x_test, x_unstable))"

text \<open>
  The loop has no iteration bound in the source, so it is a partial function:
  \<open>None\<close> stands for a loop that never exits.
\<close>

partial_function (option) bisect :: "(real \<Rightarrow> bool) \<Rightarrow> real \<times> real \<Rightarrow> (real \<times> real) option" where
  "bisect unstable b =
     (if snd b - fst b > tolerance then bisect unstable (bisect_step unstable b)
      else Some b)"

definition locate_separatrix :: "line \<Rightarrow> (real \<times> real) option" where
  "locate_separatrix line = bisect (unstable_at line) (0, 3 / 100)"

text \<open>The bracket after \<open>n\<close> passes through the loop (it stays put once the guard fails).\<close>

fun bracket_after :: "(real \<Rightarrow> bool) \<Rightarrow> nat \<Rightarrow> real \<times> real" where
  "bracket_after unstable 0 = (0, 3 / 100)"
| "bracket_after unstable (Suc n) =
     (let b = bracket_after unstable n
      in if snd b - fst b > tolerance then bisect_step unstable b else b)"

section \<open>Boundary characterizer\<close>

subsection \<open>Slope at the septum\<close>

text \<open>
  The two end points of the window around the sample closest to the septum,
  as (\<open>lims_x_separ\<close>, \<open>lims_px_separ\<close>), and the fit through them.
\<close>

definition septum_window :: "track_record \<Rightarrow> error + ((real \<times> real) \<times> (real \<times> real))" where
  "septum_window rec_separatrix =
     (let x_separ = map s_x rec_separatrix; px_separ = map s_px rec_separatrix
      in case argmin (map (\<lambda>v. \<bar>v - x_septum\<bar>) x_separ) of
           Inl e \<Rightarrow> Inl e
         | Inr i_septum \<Rightarrow>
            and_then (np_index x_separ (int i_septum - 3)) (\<lambda>x_lo.
            and_then (np_index x_separ (int i_septum + 3)) (\<lambda>x_hi.
            and_then (np_index px_separ (int i_septum - 3)) (\<lambda>px_lo.
            and_then (np_index px_separ (int i_septum + 3)) (\<lambda>px_hi.
              Inr ((x_lo, x_hi), (px_lo, px_hi)))))))"

definition septum_fit :: "track_record \<Rightarrow> error + (real \<times> real)" where
  "septum_fit rec_separatrix =
     (case septum_window rec_separatrix of
        Inl e \<Rightarrow> Inl e
      | Inr lims \<Rightarrow> Inr (polyfit_deg1 (fst lims) (snd lims)))"

subsection \<open>Stable boundary curve\<close>

definition to_complex :: "norm_sample \<Rightarrow> complex" where
  "to_complex s = Complex (x_norm s) (px_norm s)"

text \<open>
  The triangle trajectory sorted by its angle in the normalized plane:
  \<open>x_triangle\<close>, \<open>px_triangle\<close>, \<open>x_norm_triangle\<close>, \<open>px_norm_triangle\<close>.
\<close>

definition boundary_curve ::
  "track_record \<Rightarrow> norm_record \<Rightarrow> error + (real list \<times> real list \<times> real list \<times> real list)" where
  "boundary_curve rec_triangle nc_triangle =
     (let x_triangle = map s_x rec_triangle;
          px_triangle = map s_px rec_triangle;
          x_norm_triangle = map x_norm nc_triangle;
          px_norm_triangle = map px_norm nc_triangle;
          theta_triangle = map (\<lambda>s. angle (to_complex s)) nc_triangle;
          i_sorted = argsort theta_triangle
      in and_then (fancy_index x_triangle i_sorted) (\<lambda>xs.
         and_then (fancy_index px_triangle i_sorted) (\<lambda>pxs.
         and_then (fancy_index x_norm_triangle i_sorted) (\<lambda>xns.
         and_then (fancy_index px_norm_triangle i_sorted) (\<lambda>pxns.
           Inr (xs, pxs, xns, pxns))))))"

subsection \<open>Fixed points\<close>

text \<open>\<open>np.exp(1j * 2 / 3 * np.pi)\<close> and \<open>np.exp(-1j * 2 / 3 * np.pi)\<close>\<close>

definition rot_plus :: complex where
  "rot_plus = exp (\<i> * 2 / 3 * of_real pi)"

definition rot_minus :: complex where
  "rot_minus = exp (- \<i> * 2 / 3 * of_real pi)"

text \<open>\<open>np.abs(z_triangle_norm - c) < 0.2 * r_fp1\<close> and \<open>r_triangle_norm * mask\<close>\<close>

definition mask_near :: "complex list \<Rightarrow> complex \<Rightarrow> real \<Rightarrow> bool list" where
  "mask_near zs c r_fp1 = map (\<lambda>z. cmod (z - c) < 2 / 10 * r_fp1) zs"

definition masked :: "real list \<Rightarrow> bool list \<Rightarrow> real list" where
  "masked rs msk = map (\<lambda>(r, m). r * (if m then 1 else 0)) (zip rs msk)"

definition fixed_point_indices :: "complex list \<Rightarrow> error + (nat \<times> nat \<times> nat)" where
  "fixed_point_indices z_triangle_norm =
     (let r_triangle_norm = map cmod z_triangle_norm
      in and_then (argmax r_triangle_norm) (\<lambda>i_fp1.
         let z_fp1 = z_triangle_norm ! i_fp1;
             r_fp1 = cmod z_fp1;
             mask_fp2 = mask_near z_triangle_norm (z_fp1 * rot_plus) r_fp1
         in and_then (argmax (masked r_triangle_norm mask_fp2)) (\<lambda>i_fp2.
            let mask_fp3 = mask_near z_triangle_norm (z_fp1 * rot_minus) r_fp1
            in and_then (argmax (masked r_triangle_norm mask_fp3)) (\<lambda>i_fp3.
               Inr (i_fp1, i_fp2, i_fp3)))))"

text \<open>
  The fixed points in both coordinate systems, read at the three indices from
  the unsorted trajectory: \<open>x_fp\<close>, \<open>px_fp\<close>, \<open>x_norm_fp\<close>, \<open>px_norm_fp\<close>.
\<close>

definition fixed_points ::
  "track_record \<Rightarrow> norm_record \<Rightarrow> error + (real list \<times> real list \<times> real list \<times> real list)" where
  "fixed_points rec_triangle nc_triangle =
     (let z_triangle = map (\<lambda>s. Complex (s_x s) (s_px s)) rec_triangle;
          z_triangle_norm = map to_complex nc_triangle
      in and_then (fixed_point_indices z_triangle_norm) (\<lambda>idx.
         let sel = [fst idx, fst (snd idx), snd (snd idx)]
         in and_then (fancy_index z_triangle sel) (\<lambda>z_fp.
            and_then (fancy_index z_triangle_norm sel) (\<lambda>z_norm_fp.
              Inr (map Re z_fp, map Im z_fp, map Re z_norm_fp, map Im z_norm_fp)))))"

section \<open>Area\<close>

definition stable_area_of :: "real list \<Rightarrow> real list \<Rightarrow> real" where
  "stable_area_of x_norm_fp px_norm_fp = det3 x_norm_fp px_norm_fp [1, 1, 1]"

section \<open>Plotting\<close>

text \<open>
  A figure is modelled by what is drawn on its two axes; titles, axis labels
  and tick locators are left out. \<open>arrange_phase_space_plot\<close> gives the empty
  physical and normalized axes with their limits.
\<close>

datatype artist = Curve "real list" "real list" string | Vline real | Label real real string

record axes =
  xlim :: "real \<times> real"
  ylim :: "real \<times> real"
  artists :: "artist list"

definition arrange_phase_space_plot :: "axes \<times> axes" where
  "arrange_phase_space_plot =
     (\<lparr>xlim = (- 5 / 100, 5 / 100), ylim = (- 5 / 1000, 5 / 1000), artists = []\<rparr>,
      \<lparr>xlim = (- 15 / 1000, 15 / 1000), ylim = (- 15 / 1000, 15 / 1000), artists = []\<rparr>)"

definition draw :: "artist list \<Rightarrow> axes \<Rightarrow> axes" where
  "draw new ax = ax\<lparr>artists := artists ax @ new\<rparr>"

text \<open>
  The three interleaved branches of the separatrix, restricted to the turns
  where the particle is alive, on the physical and on the normalized axes.
\<close>

definition separatrix_curves :: "track_record \<Rightarrow> norm_record \<Rightarrow> error + (artist list \<times> artist list)" where
  "separatrix_curves rec_separatrix norm_separatrix =
     (let mask_alive = map (\<lambda>s. s_state s > 0) rec_separatrix
      in and_then (mask_select (map s_x rec_separatrix) mask_alive) (\<lambda>xa.
         and_then (mask_select (map s_px rec_separatrix) mask_alive) (\<lambda>pxa.
         and_then (mask_select (map x_norm norm_separatrix) mask_alive) (\<lambda>xna.
         and_then (mask_select (map px_norm norm_separatrix) mask_alive) (\<lambda>pxna.
           Inr (map (\<lambda>ii. Curve (stride3 ii xa) (stride3 ii pxa) ''-'') [0..<3],
                map (\<lambda>ii. Curve (stride3 ii xna) (stride3 ii pxna) ''-'') [0..<3]))))))"

definition plot_phase_space ::
  "track_record list \<Rightarrow> norm_record list \<Rightarrow> track_record \<Rightarrow> norm_record \<Rightarrow> real \<times> real \<Rightarrow>
   real list \<times> real list \<times> real list \<times> real list \<Rightarrow>
   real list \<times> real list \<times> real list \<times> real list \<Rightarrow> error + (axes \<times> axes)" where
  "plot_phase_space record norm_coords rec_separatrix norm_separatrix poly_sep curve fps =
     (let ax_geom = fst arrange_phase_space_plot;
          ax_norm = snd arrange_phase_space_plot;
          ymax = snd (ylim ax_geom);
          ax_geom = draw (map (\<lambda>r. Curve (map s_x r) (map s_px r) ''.'') record) ax_geom;
          ax_norm = draw (map (\<lambda>r. Curve (map x_norm r) (map px_norm r) ''.'') norm_coords) ax_norm;
          ax_geom = draw [Vline x_septum,
                          Label (x_septum * (98 / 100)) (ymax * (95 / 100)) ''Septum''] ax_geom
      in and_then (separatrix_curves rec_separatrix norm_separatrix) (\<lambda>sep.
         let ax_geom = draw (fst sep) ax_geom;
             ax_norm = draw (snd sep) ax_norm;
             intervale_x_pente = [x_septum - 1 / 100, x_septum + 1 / 100];
             ax_geom = draw [Curve intervale_x_pente (map (polyval poly_sep) intervale_x_pente) ''--k''] ax_geom;
             ax_geom = draw [Curve (fst curve) (fst (snd curve)) ''-''] ax_geom;
             ax_norm = draw [Curve (fst (snd (snd curve))) (snd (snd (snd curve))) ''-''] ax_norm;
             ax_geom = draw [Curve (fst fps) (fst (snd fps)) ''*''] ax_geom;
             ax_norm = draw [Curve (fst (snd (snd fps))) (snd (snd (snd fps))) ''*''] ax_norm
         in Inr (ax_geom, ax_norm)))"

section \<open>The characterization call\<close>

text \<open>
  Everything after the search, for the bracket \<open>b = (x_stable, x_unstable)\<close>
  it ended with. The figure is \<open>None\<close> when nothing is plotted.
\<close>

definition characterize_bracket ::
  "line \<Rightarrow> bool \<Rightarrow> track_record list \<Rightarrow> norm_record list \<Rightarrow> real \<times> real \<Rightarrow>
   error + (result \<times> (axes \<times> axes) option)" where
  "characterize_bracket line plot record norm_coords b =
     (let x_stable = fst b; x_unstable = snd b;
          rec_separatrix = track line x_unstable num_turns;
          norm_separatrix = get_normalized_coordinates line rec_separatrix
      in and_then (septum_fit rec_separatrix) (\<lambda>poly_sep.
         let rec_triangle = track line x_stable num_turns;
             nc_triangle = get_normalized_coordinates line rec_triangle
         in and_then (boundary_curve rec_triangle nc_triangle) (\<lambda>curve.
            and_then (fixed_points rec_triangle nc_triangle) (\<lambda>fps.
            let res = \<lparr>stable_area = stable_area_of (fst (snd (snd fps))) (snd (snd (snd fps))),
                       dpx_dx_at_septum = fst poly_sep,
                       x_fixed_points = fst fps,
                       px_fixed_points = fst (snd fps),
                       x_norm_fixed_points = fst (snd (snd fps)),
                       px_norm_fixed_points = snd (snd (snd fps))\<rparr>
            in if plot
               then and_then (plot_phase_space record norm_coords rec_separatrix norm_separatrix
                                poly_sep curve fps) (\<lambda>fig. Inr (res, Some fig))
               else Inr (res, None)))))"

text \<open>The whole call; \<open>None\<close> stands for a call that never returns.\<close>

definition characterize_phase_space ::
  "line \<Rightarrow> bool \<Rightarrow> (error + (result \<times> (axes \<times> axes) option)) option" where
  "characterize_phase_space line plot =
     (let x_gen = linspace 0 (25 / 1000) 25;
          record = track_many line x_gen 1000;
          norm_coords = map (get_normalized_coordinates line) record
      in case bisect (unstable_at line) (0, 3 / 100) of
           None \<Rightarrow> None
         | Some b \<Rightarrow> Some (characterize_bracket line plot record norm_coords b))"

text \<open>What the caller gets back: the result record, an exception, or nothing.\<close>

definition returned :: "(error + (result \<times> (axes \<times> axes) option)) option \<Rightarrow> (error + result) option" where
  "returned out = map_option (map_sum id fst) out"

section \<open>Synthetic inputs and the properties stated for them\<close>

text \<open>
  A tracker with an analytic stability boundary: the particle sits beyond the
  septum on every turn when it starts at or beyond \<open>x_star\<close>, and on the axis
  otherwise.
\<close>

definition threshold_line :: "real \<Rightarrow> line" where
  "threshold_line x_star =
     \<lparr>track = (\<lambda>x0 n. replicate n \<lparr>s_x = (if x_star \<le> x0 then 1 else 0), s_px = 0, s_state = 1\<rparr>),
      track_many = (\<lambda>xs n. map (\<lambda>x0. replicate n \<lparr>s_x = x0, s_px = 0, s_state = 1\<rparr>) xs),
      normalize = (\<lambda>r i. \<lparr>x_norm = s_x (r ! i), px_norm = s_px (r ! i)\<rparr>)\<rparr>"

text \<open>A tracker that never reports instability: the particle stays on the axis.\<close>

definition quiet_line :: line where
  "quiet_line =
     \<lparr>track = (\<lambda>x0 n. replicate n \<lparr>s_x = 0, s_px = 0, s_state = 1\<rparr>),
      track_many = (\<lambda>xs n. map (\<lambda>x0. replicate n \<lparr>s_x = 0, s_px = 0, s_state = 1\<rparr>) xs),
      normalize = (\<lambda>r i. \<lparr>x_norm = s_x (r ! i), px_norm = s_px (r ! i)\<rparr>)\<rparr>"

text \<open>
  The point of radius \<open>r\<close> at an angle given in degrees, and the three points
  of a trajectory that is symmetric under rotation by 120 degrees.
\<close>

definition cluster_point :: "real \<Rightarrow> real \<Rightarrow> complex" where
  "cluster_point r deg = of_real r * cis (deg * pi / 180)"

definition clusters :: "real \<Rightarrow> complex list" where
  "clusters r = [cluster_point r 90, cluster_point r 210, cluster_point r 330]"

text \<open>
  The boundary curve as the specification words it: the samples flagged as
  lost are dropped before the angles are computed and sorted.
\<close>

definition alive_part :: "track_record \<Rightarrow> 'a list \<Rightarrow> 'a list" where
  "alive_part rec_triangle a = map snd (filter (\<lambda>p. s_state (fst p) > 0) (zip rec_triangle a))"

definition boundary_curve_alive_only ::
  "track_record \<Rightarrow> norm_record \<Rightarrow> error + (real list \<times> real list \<times> real list \<times> real list)" where
  "boundary_curve_alive_only rec_triangle nc_triangle =
     boundary_curve (alive_part rec_triangle rec_triangle) (alive_part rec_triangle nc_triangle)"

text \<open>
  The invariant stated for a fixed-point set, on the three normalized points:
  one of them has a radius strictly above the two others.
\<close>

definition unique_max_radius :: "complex list \<Rightarrow> bool" where
  "unique_max_radius zs =
     list_ex (\<lambda>k. list_all (\<lambda>j. j = k \<or> cmod (zs ! j) < cmod (zs ! k)) [0..<length zs])
       [0..<length zs]"

text \<open>
  The other half of that invariant: the differences between consecutive
  angles of the points, once sorted by angle, which are to be about 120 degrees.
\<close>

definition angular_gaps :: "complex list \<Rightarrow> real list" where
  "angular_gaps zs =
     (let th = sort (map angle zs) in map (\<lambda>i. th ! Suc i - th ! i) [0..<length th - 1])"

text \<open>Records written as lists of coordinate pairs (every sample alive).\<close>

definition samples_of :: "(real \<times> real) list \<Rightarrow> track_record" where
  "samples_of ps = map (\<lambda>p. \<lparr>s_x = fst p, s_px = snd p, s_state = 1\<rparr>) ps"

definition norm_samples_of :: "(real \<times> real) list \<Rightarrow> norm_record" where
  "norm_samples_of ps = map (\<lambda>p. \<lparr>x_norm = fst p, px_norm = snd p\<rparr>) ps"

text \<open>
  Normalized samples at the corners of the triangle of circumradius 1 that the
  area property is stated for.
\<close>

definition unit_triangle :: "complex list" where
  "unit_triangle = [Complex 0 1, Complex (- 866 / 1000) (- 1 / 2), Complex (866 / 1000) (- 1 / 2)]"

text \<open>
  A tracker for an end-to-end run. Whatever the offset, the particle rests on
  the axis except at three turns, where it visits the corners of the unit
  triangle in the normalized plane; the physical coordinates are the
  normalized ones scaled by 0.03. \<open>triangle_result\<close> is the record the call
  returns for it.
\<close>

definition triangle_point :: "nat \<Rightarrow> complex" where
  "triangle_point k =
     (if k = 2 then Complex (- 866 / 1000) (- 1 / 2)
      else if k = 5 then Complex (866 / 1000) (- 1 / 2)
      else if k = 6 then Complex 0 1
      else 0)"

definition triangle_record :: "nat \<Rightarrow> track_record" where
  "triangle_record n =
     map (\<lambda>k. \<lparr>s_x = 3 / 100 * Re (triangle_point k), s_px = 3 / 100 * Im (triangle_point k),
               s_state = 1\<rparr>) [0..<n]"

definition triangle_line :: line where
  "triangle_line =
     \<lparr>track = (\<lambda>x0 n. triangle_record n),
      track_many = (\<lambda>xs n. map (\<lambda>x0. triangle_record n) xs),
      normalize = (\<lambda>r i. \<lparr>x_norm = s_x (r ! i) * (100 / 3), px_norm = s_px (r ! i) * (100 / 3)\<rparr>)\<rparr>"

definition triangle_result :: result where
  "triangle_result =
     \<lparr>stable_area = 2598 / 1000,
      dpx_dx_at_septum = 250 / 433,
      x_fixed_points = [0, - 2598 / 100000, 2598 / 100000],
      px_fixed_points = [3 / 100, - 15 / 1000, - 15 / 1000],
      x_norm_fixed_points = [0, - 866 / 1000, 866 / 1000],
      px_norm_fixed_points = [1, - 1 / 2, - 1 / 2]\<rparr>"

section \<open>Properties of the separatrix locator\<close>

lemma bisect_go: "snd b - fst b > tolerance \<Longrightarrow> bisect f b = bisect f (bisect_step f b)"
  by (subst bisect.simps) simp

lemma bisect_stop: "\<not> snd b - fst b > tolerance \<Longrightarrow> bisect f b = Some b"
  by (subst bisect.simps) simp

lemma bisect_step_fst: "fst b < snd b \<Longrightarrow> fst b \<le> fst (bisect_step f b)"
  by (simp add: bisect_step_def Let_def)

lemma bisect_step_snd: "fst b < snd b \<Longrightarrow> snd (bisect_step f b) \<le> snd b"
  by (simp add: bisect_step_def Let_def)

lemma bisect_step_width:
  "snd (bisect_step f b) - fst (bisect_step f b) = (snd b - fst b) / 2"
  by (simp add: bisect_step_def Let_def field_simps)

lemma tolerance_pos: "0 < tolerance"
  by (simp add: tolerance_def)

text \<open>
  The loop rule: a bracket of width at most \<open>tolerance * 2 ^ n\<close> leaves the
  loop after at most \<open>n\<close> passes, and whatever the body preserves holds at exit.
\<close>

lemma bisect_rule:
  assumes "snd b - fst b \<le> tolerance * 2 ^ n"
    and "I b"
    and "\<And>c. I c \<Longrightarrow> snd c - fst c > tolerance \<Longrightarrow> I (bisect_step f c)"
  shows "\<exists>r. bisect f b = Some r \<and> I r \<and> snd r - fst r \<le> tolerance"
  using assms(1,2)
proof (induction n arbitrary: b)
  case 0
  then have "\<not> snd b - fst b > tolerance" by simp
  then have "bisect f b = Some b" by (rule bisect_stop)
  with 0 show ?case by simp
next
  case (Suc n)
  show ?case
  proof (cases "snd b - fst b > tolerance")
    case False
    then have "bisect f b = Some b" by (rule bisect_stop)
    with False Suc.prems show ?thesis by simp
  next
    case True
    have w: "snd (bisect_step f b) - fst (bisect_step f b) \<le> tolerance * 2 ^ n"
      using Suc.prems(1) by (simp add: bisect_step_width)
    have "I (bisect_step f b)" using Suc.prems(2) True by (rule assms(3))
    from Suc.IH [OF w this] show ?thesis by (simp add: bisect_go [OF True])
  qed
qed

lemma initial_width:
  "snd (0::real, 3 / 100 :: real) - fst (0::real, 3 / 100 :: real) \<le> tolerance * 2 ^ 15"
  by (simp add: tolerance_def)

lemma unstable_at_threshold: "unstable_at (threshold_line x_star) x0 \<longleftrightarrow> x_star \<le> x0"
  by (simp add: unstable_at_def is_unstable_def threshold_line_def list_ex_iff num_turns_def
      x_septum_def)

lemma unstable_at_quiet: "\<not> unstable_at quiet_line x0"
  by (simp add: unstable_at_def is_unstable_def quiet_line_def list_ex_iff num_turns_def
      x_septum_def)

text \<open>Every bracket of the trace leads the loop to the same exit as the first one.\<close>

lemma bisect_bracket_after: "bisect f (bracket_after f n) = bisect f (0, 3 / 100)"
proof (induction n)
  case 0
  show ?case by simp
next
  case (Suc n)
  show ?case
  proof (cases "snd (bracket_after f n) - fst (bracket_after f n) > tolerance")
    case True
    then show ?thesis using Suc bisect_go [OF True, of f] by (simp add: Let_def)
  next
    case False
    then show ?thesis using Suc by (simp add: Let_def)
  qed
qed

text \<open>
  C1, as stated: for a tracker whose stability boundary \<open>x*\<close> lies in the
  bracket [0, 0.03], the loop ends with \<open>x_stable < x* \<le> x_unstable\<close>. This
  fails for the boundary \<open>x* = 0\<close>: every midpoint is unstable, \<open>x_stable\<close>
  keeps its initial value 0, which was never tracked, and \<open>0 < 0\<close> is false.
\<close>

theorem bisection_boundary_at_zero:
  "(\<forall>x0. unstable_at (threshold_line 0) x0 \<longleftrightarrow> 0 \<le> x0)
   \<and> locate_separatrix (threshold_line 0) = Some (0, 3 / 3276800)
   \<and> \<not> (\<exists>x_stable x_unstable.
          locate_separatrix (threshold_line 0) = Some (x_stable, x_unstable)
          \<and> x_stable < 0 \<and> 0 \<le> x_unstable)"
proof -
  have "locate_separatrix (threshold_line 0) = Some (0, 3 / 3276800)"
    unfolding locate_separatrix_def
    by (simp add: bisect_go bisect_stop bisect_step_def unstable_at_threshold tolerance_def)
  then show ?thesis by (simp add: unstable_at_threshold)
qed

text \<open>
  C1, amended: for a deterministic tracker that is unstable exactly from a
  boundary \<open>x*\<close> on, with \<open>0 < x* \<le> 0.03\<close>, the bisection loop exits with
  \<open>x_stable < x* \<le> x_unstable\<close> and \<open>x_unstable - x_stable \<le> 1e-6\<close>; the
  trajectory from \<open>x_unstable\<close> exceeds the septum threshold and the one from
  \<open>x_stable\<close> never does.
\<close>

theorem bisection_convergence:
  assumes "0 < x_star" and "x_star \<le> 3 / 100"
    and "\<forall>x0. unstable_at line x0 \<longleftrightarrow> x_star \<le> x0"
  shows "\<exists>x_stable x_unstable.
           locate_separatrix line = Some (x_stable, x_unstable)
           \<and> x_stable < x_star \<and> x_star \<le> x_unstable
           \<and> x_unstable - x_stable \<le> tolerance
           \<and> \<not> unstable_at line x_stable \<and> unstable_at line x_unstable"
proof -
  let ?I = "\<lambda>b. fst b < x_star \<and> x_star \<le> snd b"
  have init: "?I (0, 3 / 100)" using assms(1,2) by simp
  have step: "?I (bisect_step (unstable_at line) c)" if "?I c" for c
    using that assms(3) by (auto simp: bisect_step_def Let_def not_le)
  from bisect_rule [where I = ?I and f = "unstable_at line", OF initial_width init step]
  obtain r where "bisect (unstable_at line) (0, 3 / 100) = Some r" "?I r"
    "snd r - fst r \<le> tolerance"
    by blast
  then show ?thesis using assms(3)
    by (intro exI [of _ "fst r"] exI [of _ "snd r"]) (simp add: locate_separatrix_def)
qed

theorem bisection_convergence_witness:
  "(0::real) < 1 / 100 \<and> (1 / 100 :: real) \<le> 3 / 100
   \<and> (\<forall>x0. unstable_at (threshold_line (1 / 100)) x0 \<longleftrightarrow> 1 / 100 \<le> x0)
   \<and> (\<exists>x_stable x_unstable.
         locate_separatrix (threshold_line (1 / 100)) = Some (x_stable, x_unstable)
         \<and> x_stable < 1 / 100 \<and> 1 / 100 \<le> x_unstable
         \<and> x_unstable - x_stable \<le> tolerance
         \<and> \<not> unstable_at (threshold_line (1 / 100)) x_stable
         \<and> unstable_at (threshold_line (1 / 100)) x_unstable)"
  using bisection_convergence [of "1 / 100" "threshold_line (1 / 100)"]
  by (simp add: unstable_at_threshold)

text \<open>
  C4, as stated: some tracker that never reports instability makes the
  bisection loop run forever. It does not: with the tracker that never reports
  instability the loop exits after 15 passes, and no tracker of that kind
  keeps it running.
\<close>

theorem never_unstable_loop_exits:
  "locate_separatrix quiet_line = Some (98301 / 3276800, 3 / 100)
   \<and> \<not> (\<exists>line. (\<forall>x0. \<not> unstable_at line x0) \<and> locate_separatrix line = None)"
proof -
  have "locate_separatrix quiet_line = Some (98301 / 3276800, 3 / 100)"
    unfolding locate_separatrix_def
    by (simp add: bisect_go bisect_stop bisect_step_def unstable_at_quiet tolerance_def)
  moreover have "locate_separatrix line \<noteq> None" for line
  proof -
    from bisect_rule [where I = "\<lambda>b. True" and f = "unstable_at line", OF initial_width]
    obtain r where "bisect (unstable_at line) (0, 3 / 100) = Some r" by blast
    then show ?thesis by (simp add: locate_separatrix_def)
  qed
  ultimately show ?thesis by blast
qed

lemma bracket_after_width:
  "snd (bracket_after f n) - fst (bracket_after f n) \<le> tolerance
   \<or> snd (bracket_after f n) - fst (bracket_after f n) = 3 / 100 / 2 ^ n"
proof (induction n)
  case 0
  show ?case by simp
next
  case (Suc n)
  show ?case
  proof (cases "snd (bracket_after f n) - fst (bracket_after f n) > tolerance")
    case True
    with Suc have "snd (bracket_after f n) - fst (bracket_after f n) = 3 / 100 / 2 ^ n" by simp
    then show ?thesis using True by (simp add: Let_def bisect_step_width)
  next
    case False
    then show ?thesis by (simp add: Let_def)
  qed
qed

lemma bracket_after_15: "\<not> snd (bracket_after f 15) - fst (bracket_after f 15) > tolerance"
  using bracket_after_width [of f 15] by (auto simp: tolerance_def)

text \<open>
  C4, amended: for every deterministic tracker, whether or not it ever reports
  instability, the bisection loop exits, with a bracket no wider than the
  tolerance: each pass halves the bracket, and the loop returns the bracket
  reached after at most 15 passes.
\<close>

theorem bisection_always_exits:
  "locate_separatrix line = Some (bracket_after (unstable_at line) 15)
   \<and> snd (bracket_after (unstable_at line) 15) - fst (bracket_after (unstable_at line) 15)
       \<le> tolerance"
proof -
  have "bisect (unstable_at line) (bracket_after (unstable_at line) 15)
          = Some (bracket_after (unstable_at line) 15)"
    using bracket_after_15 by (rule bisect_stop)
  then have "locate_separatrix line = Some (bracket_after (unstable_at line) 15)"
    by (simp only: locate_separatrix_def bisect_bracket_after)
  then show ?thesis using bracket_after_15 [of "unstable_at line"] by simp
qed

text \<open>
  C9: for every tracker and every pass through the loop, \<open>x_stable\<close> does
  not decrease, \<open>x_unstable\<close> does not increase, and the bracket does not widen.
\<close>

theorem bracket_narrows_monotonically:
  "fst (bracket_after unstable n) \<le> fst (bracket_after unstable (Suc n))
   \<and> snd (bracket_after unstable (Suc n)) \<le> snd (bracket_after unstable n)
   \<and> snd (bracket_after unstable (Suc n)) - fst (bracket_after unstable (Suc n))
       \<le> snd (bracket_after unstable n) - fst (bracket_after unstable n)"
proof (cases "snd (bracket_after unstable n) - fst (bracket_after unstable n) > tolerance")
  case True
  then have lt: "fst (bracket_after unstable n) < snd (bracket_after unstable n)"
    using tolerance_pos by linarith
  have eq: "bracket_after unstable (Suc n) = bisect_step unstable (bracket_after unstable n)"
    using True by (simp add: Let_def)
  show ?thesis
    unfolding eq using bisect_step_fst [OF lt, of unstable] bisect_step_snd [OF lt, of unstable]
      bisect_step_width [of unstable "bracket_after unstable n"] lt
    by linarith
next
  case False
  then show ?thesis by (simp add: Let_def)
qed

section \<open>Properties of the fixed-point detection\<close>

lemma rot_plus_eq: "rot_plus = Complex (- 1 / 2) (sqrt 3 / 2)"
proof -
  have "\<i> * 2 / 3 * of_real pi = \<i> * of_real (2 * pi / 3)" by simp
  then have "rot_plus = cis (2 * pi / 3)" by (simp only: rot_plus_def cis_conv_exp)
  then show ?thesis by (simp add: complex_eq_iff cos_120 sin_120)
qed

lemma rot_minus_eq: "rot_minus = Complex (- 1 / 2) (- sqrt 3 / 2)"
proof -
  have "- \<i> * 2 / 3 * of_real pi = \<i> * of_real (- (2 * pi / 3))" by simp
  then have "rot_minus = cis (- (2 * pi / 3))" by (simp only: rot_minus_def cis_conv_exp)
  then show ?thesis by (simp add: complex_eq_iff cos_120 sin_120)
qed

lemma and_then_Inr [simp]: "and_then (Inr v) f = f v"
  by (simp add: and_then_def)

lemma and_then_Inl [simp]: "and_then (Inl e) f = Inl e"
  by (simp add: and_then_def)

lemma first_max_less: "vs \<noteq> [] \<Longrightarrow> first_max vs < length vs"
  by (induction vs) (auto simp: Let_def)

lemma first_max_ge: "j < length vs \<Longrightarrow> vs ! j \<le> vs ! first_max vs"
proof (induction vs arbitrary: j)
  case Nil
  then show ?case by simp
next
  case (Cons v vs)
  show ?case
  proof (cases "vs = []")
    case True
    with Cons.prems show ?thesis by simp
  next
    case False
    show ?thesis
    proof (cases j)
      case 0
      then show ?thesis using False by (simp add: Let_def)
    next
      case (Suc i)
      with Cons.prems have "i < length vs" by simp
      from Cons.IH [OF this] show ?thesis using False Suc by (auto simp: Let_def)
    qed
  qed
qed

lemma first_max_all_equal: "\<forall>v \<in> set vs. v = c \<Longrightarrow> first_max vs = 0"
proof (cases vs)
  case Nil
  then show ?thesis by simp
next
  case (Cons v ws)
  assume a: "\<forall>v \<in> set vs. v = c"
  show ?thesis
  proof (cases "ws = []")
    case True
    with Cons show ?thesis by simp
  next
    case False
    then have "first_max ws < length ws" by (rule first_max_less)
    then have "ws ! first_max ws \<in> set ws" by simp
    with a Cons have "ws ! first_max ws = c" "v = c" by auto
    with Cons False show ?thesis by (simp add: Let_def)
  qed
qed

lemma argmax_Inr: "vs \<noteq> [] \<Longrightarrow> argmax vs = Inr (first_max vs)"
  by (simp add: argmax_def)

lemma length_masked [simp]: "length (masked (map cmod zs) (mask_near zs c r)) = length zs"
  by (simp add: masked_def mask_near_def)

lemma masked_nth:
  "j < length zs \<Longrightarrow>
   masked (map cmod zs) (mask_near zs c r) ! j
     = cmod (zs ! j) * (if cmod (zs ! j - c) < 2 / 10 * r then 1 else 0)"
  by (simp add: masked_def mask_near_def)

lemma masked_miss:
  assumes "\<forall>z \<in> set zs. \<not> cmod (z - c) < 2 / 10 * r"
  shows "first_max (masked (map cmod zs) (mask_near zs c r)) = 0"
proof (rule first_max_all_equal [where c = 0])
  show "\<forall>v\<in>set (masked (map cmod zs) (mask_near zs c r)). v = 0"
    using assms by (auto simp: masked_def mask_near_def set_zip)
qed

lemma fixed_point_indices_eq:
  assumes "zs \<noteq> []"
  shows "fixed_point_indices zs =
    Inr (first_max (map cmod zs),
         first_max (masked (map cmod zs)
           (mask_near zs (zs ! first_max (map cmod zs) * rot_plus) (cmod (zs ! first_max (map cmod zs))))),
         first_max (masked (map cmod zs)
           (mask_near zs (zs ! first_max (map cmod zs) * rot_minus) (cmod (zs ! first_max (map cmod zs))))))"
proof -
  have ne: "masked (map cmod zs) (mask_near zs c r) \<noteq> []" for c r
    using assms length_masked [of zs c r] by (metis length_0_conv)
  show ?thesis
    using assms by (simp add: fixed_point_indices_def Let_def argmax_def ne)
qed

text \<open>
  C6: when no sample of the triangle trajectory lies within \<open>0.2 * r1\<close> of
  the maximum-radius sample \<open>z1\<close> rotated by +120 degrees (respectively -120
  degrees), the search returns index 0 for the second (respectively third)
  fixed point; it returns indices and signals no failure.
\<close>

theorem mask_miss_selects_index_0:
  assumes "zs \<noteq> []"
  shows "\<exists>i_fp1 i_fp2 i_fp3.
           fixed_point_indices zs = Inr (i_fp1, i_fp2, i_fp3)
           \<and> ((\<forall>z \<in> set zs. \<not> cmod (z - zs ! i_fp1 * rot_plus) < 2 / 10 * cmod (zs ! i_fp1))
                \<longrightarrow> i_fp2 = 0)
           \<and> ((\<forall>z \<in> set zs. \<not> cmod (z - zs ! i_fp1 * rot_minus) < 2 / 10 * cmod (zs ! i_fp1))
                \<longrightarrow> i_fp3 = 0)"
  using fixed_point_indices_eq [OF assms] masked_miss by auto

lemma not_near: "2 / 10 * r \<le> \<bar>Re z - Re c\<bar> \<Longrightarrow> \<not> cmod (z - c) < 2 / 10 * r"
  using abs_Re_le_cmod [of "z - c"] by simp

lemma quarter_far_plus:
  "z \<in> set [1, \<i>, - 1, - \<i>] \<Longrightarrow> \<not> cmod (z - 1 * rot_plus) < 2 / 10 * cmod (1 :: complex)"
  by (rule not_near) (auto simp: rot_plus_eq)

lemma quarter_far_minus:
  "z \<in> set [1, \<i>, - 1, - \<i>] \<Longrightarrow> \<not> cmod (z - 1 * rot_minus) < 2 / 10 * cmod (1 :: complex)"
  by (rule not_near) (auto simp: rot_minus_eq)

theorem mask_miss_selects_index_0_witness:
  "[1, \<i>, - 1, - \<i>] \<noteq> []
   \<and> list_all (\<lambda>z. \<not> cmod (z - 1 * rot_plus) < 2 / 10 * cmod (1 :: complex)) [1, \<i>, - 1, - \<i>]
   \<and> list_all (\<lambda>z. \<not> cmod (z - 1 * rot_minus) < 2 / 10 * cmod (1 :: complex)) [1, \<i>, - 1, - \<i>]
   \<and> fixed_point_indices [1, \<i>, - 1, - \<i>] = Inr (0, 0, 0)"
proof -
  let ?zs = "[1, \<i>, - 1, - \<i>] :: complex list"
  have p: "\<forall>z \<in> set ?zs. \<not> cmod (z - 1 * rot_plus) < 2 / 10 * cmod (1 :: complex)"
    using quarter_far_plus by blast
  have m: "\<forall>z \<in> set ?zs. \<not> cmod (z - 1 * rot_minus) < 2 / 10 * cmod (1 :: complex)"
    using quarter_far_minus by blast
  from mask_miss_selects_index_0 [of ?zs]
  obtain i_fp1 i_fp2 i_fp3 where
    eq: "fixed_point_indices ?zs = Inr (i_fp1, i_fp2, i_fp3)"
    and f2: "(\<forall>z \<in> set ?zs. \<not> cmod (z - ?zs ! i_fp1 * rot_plus) < 2 / 10 * cmod (?zs ! i_fp1)) \<longrightarrow> i_fp2 = 0"
    and f3: "(\<forall>z \<in> set ?zs. \<not> cmod (z - ?zs ! i_fp1 * rot_minus) < 2 / 10 * cmod (?zs ! i_fp1)) \<longrightarrow> i_fp3 = 0"
    by blast
  have "i_fp1 = first_max (map cmod ?zs)"
    using eq fixed_point_indices_eq [of ?zs] by simp
  then have i1: "i_fp1 = 0" by simp
  have z1: "?zs ! 0 = 1" by simp
  have "i_fp2 = 0" using f2 p unfolding i1 z1 by blast
  moreover have "i_fp3 = 0" using f3 m unfolding i1 z1 by blast
  ultimately show ?thesis using eq i1 p m by (simp add: list_all_iff)
qed

lemma rot_plus_cis: "rot_plus = cis (120 * pi / 180)"
proof -
  have "\<i> * 2 / 3 * of_real pi = \<i> * of_real (120 * pi / 180)" by simp
  then show ?thesis by (simp only: rot_plus_def cis_conv_exp)
qed

lemma rot_minus_cis: "rot_minus = cis (- (120 * pi / 180))"
proof -
  have "- \<i> * 2 / 3 * of_real pi = \<i> * of_real (- (120 * pi / 180))" by simp
  then show ?thesis by (simp only: rot_minus_def cis_conv_exp)
qed

lemma cluster_point_rot_plus: "cluster_point r d * rot_plus = cluster_point r (d + 120)"
  by (simp add: cluster_point_def rot_plus_cis cis_mult mult.assoc add_divide_distrib distrib_right)

lemma cluster_point_rot_minus: "cluster_point r (d + 120) * rot_minus = cluster_point r d"
  by (simp add: cluster_point_def rot_minus_cis cis_mult mult.assoc add_divide_distrib distrib_right)

lemma cluster_point_450: "cluster_point r 450 = cluster_point r 90"
proof -
  have "450 * pi / 180 = pi / 2 + 2 * pi" by simp
  then have "cis (450 * pi / 180) = cis (pi / 2) * cis (2 * pi)" by (simp only: cis_mult)
  then show ?thesis by (simp add: cluster_point_def)
qed

lemma cluster_90: "cluster_point r 90 = Complex 0 r"
  by (simp add: cluster_point_def complex_eq_iff)

lemma cluster_210: "cluster_point r 210 = Complex (- (r * sqrt 3 / 2)) (- (r / 2))"
proof -
  have "210 * pi / 180 = pi + pi / 6" by simp
  then have "cos (210 * pi / 180) = - (sqrt 3 / 2)" "sin (210 * pi / 180) = - (1 / 2)"
    by (simp_all only: cos_add sin_add cos_pi sin_pi cos_30 sin_30)
  then show ?thesis by (simp add: cluster_point_def complex_eq_iff)
qed

lemma cluster_330: "cluster_point r 330 = Complex (r * sqrt 3 / 2) (- (r / 2))"
proof -
  have a: "330 * pi / 180 = 2 * pi - pi / 6" by simp
  have "cos (2 * pi - pi / 6) = sqrt 3 / 2" "sin (2 * pi - pi / 6) = - (1 / 2)"
    by (simp_all only: cos_2pi_minus sin_2pi_minus cos_30 sin_30)
  then have "cos (330 * pi / 180) = sqrt 3 / 2" "sin (330 * pi / 180) = - (1 / 2)"
    by (simp_all only: a)
  then show ?thesis by (simp add: cluster_point_def complex_eq_iff)
qed

lemma cmod_cluster_point: "0 \<le> r \<Longrightarrow> cmod (cluster_point r d) = r"
  by (simp add: cluster_point_def norm_mult)

lemma rot_table:
  "cluster_point r 90 * rot_plus = cluster_point r 210"
  "cluster_point r 210 * rot_plus = cluster_point r 330"
  "cluster_point r 330 * rot_plus = cluster_point r 90"
  "cluster_point r 90 * rot_minus = cluster_point r 330"
  "cluster_point r 210 * rot_minus = cluster_point r 90"
  "cluster_point r 330 * rot_minus = cluster_point r 210"
  using cluster_point_rot_plus [of r 90] cluster_point_rot_plus [of r 210]
    cluster_point_rot_plus [of r 330] cluster_point_rot_minus [of r 330]
    cluster_point_rot_minus [of r 90] cluster_point_rot_minus [of r 210]
  by (simp_all add: cluster_point_450)

lemma one_le_sqrt3: "1 \<le> sqrt 3"
  by simp

lemma clusters_far:
  assumes "0 < r" "u \<in> set (clusters r)" "v \<in> set (clusters r)" "u \<noteq> v"
  shows "\<not> cmod (u - v) < 2 / 10 * r"
proof -
  have s: "1 \<le> sqrt 3 * 5" using one_le_sqrt3 by linarith
  have "2 / 10 * r \<le> \<bar>Re (u - v)\<bar> \<or> 2 / 10 * r \<le> \<bar>Im (u - v)\<bar>"
    using assms s by (auto simp: clusters_def cluster_90 cluster_210 cluster_330)
  then show ?thesis
    using abs_Re_le_cmod [of "u - v"] abs_Im_le_cmod [of "u - v"] by linarith
qed

lemma masked_hit:
  assumes "0 < r" and "\<forall>z \<in> set zs. cmod z = r" and "c \<in> set zs"
    and "\<forall>z \<in> set zs. z \<noteq> c \<longrightarrow> \<not> cmod (z - c) < 2 / 10 * r"
  shows "zs ! first_max (masked (map cmod zs) (mask_near zs c r)) = c"
proof -
  let ?vs = "masked (map cmod zs) (mask_near zs c r)"
  let ?k = "first_max ?vs"
  from assms(3) obtain j where j: "j < length zs" "zs ! j = c"
    by (auto simp: in_set_conv_nth)
  then have ne: "?vs \<noteq> []" by (metis length_masked length_0_conv not_less_zero)
  then have k: "?k < length zs" using first_max_less [of ?vs] by simp
  have "?vs ! j = r" using j assms(1,2,3) by (simp add: masked_nth)
  moreover have "?vs ! j \<le> ?vs ! ?k" using j by (intro first_max_ge) simp
  ultimately have "r \<le> ?vs ! ?k" by simp
  then have "cmod (zs ! ?k - c) < 2 / 10 * r"
    using assms(1) k by (auto simp: masked_nth split: if_splits)
  moreover have "zs ! ?k \<in> set zs" using k by simp
  ultimately show ?thesis using assms(4) by blast
qed

text \<open>
  C3: for a trajectory whose normalized samples are exactly the three points of
  radius \<open>r > 0\<close> at 90, 210 and 330 degrees, each of them present, the
  detection returns three indices whose samples are those three points, in
  some order.
\<close>

theorem three_clusters_detected:
  assumes "0 < r" and "set zs = set (clusters r)"
  shows "\<exists>i_fp1 i_fp2 i_fp3.
           fixed_point_indices zs = Inr (i_fp1, i_fp2, i_fp3)
           \<and> mset [zs ! i_fp1, zs ! i_fp2, zs ! i_fp3] = mset (clusters r)"
proof -
  have ne: "zs \<noteq> []" using assms(2) by (auto simp: clusters_def)
  have rad: "\<forall>z \<in> set zs. cmod z = r"
    using assms by (auto simp: clusters_def cmod_cluster_point)
  let ?i1 = "first_max (map cmod zs)"
  let ?z1 = "zs ! ?i1"
  let ?i2 = "first_max (masked (map cmod zs) (mask_near zs (?z1 * rot_plus) (cmod ?z1)))"
  let ?i3 = "first_max (masked (map cmod zs) (mask_near zs (?z1 * rot_minus) (cmod ?z1)))"
  have "?i1 < length zs" using ne first_max_less [of "map cmod zs"] by simp
  then have z1: "?z1 \<in> set (clusters r)" using assms(2) nth_mem by blast
  then have r1: "cmod ?z1 = r" using rad assms(2) by blast
  have far: "\<forall>z \<in> set zs. z \<noteq> c \<longrightarrow> \<not> cmod (z - c) < 2 / 10 * r"
    if "c \<in> set (clusters r)" for c
    using clusters_far [OF assms(1) _ that] assms(2) by blast
  have in_p: "?z1 * rot_plus \<in> set (clusters r)" and in_m: "?z1 * rot_minus \<in> set (clusters r)"
    using z1 by (auto simp: clusters_def rot_table)
  have z2: "zs ! ?i2 = ?z1 * rot_plus"
    unfolding r1 using in_p assms(2) by (intro masked_hit [OF assms(1) rad _ far]) simp_all
  have z3: "zs ! ?i3 = ?z1 * rot_minus"
    unfolding r1 using in_m assms(2) by (intro masked_hit [OF assms(1) rad _ far]) simp_all
  have "mset [?z1, ?z1 * rot_plus, ?z1 * rot_minus] = mset (clusters r)"
    using z1 by (auto simp: clusters_def rot_table)
  then have "mset [zs ! ?i1, zs ! ?i2, zs ! ?i3] = mset (clusters r)"
    by (simp only: z2 z3)
  then show ?thesis using fixed_point_indices_eq [OF ne] by blast
qed

text \<open>A trajectory that starts at 210 degrees and comes back to it, at radius 2.\<close>

theorem three_clusters_detected_witness:
  "(0 :: real) < 2
   \<and> set [cluster_point 2 210, cluster_point 2 330, cluster_point 2 90, cluster_point 2 210]
       = set (clusters 2)
   \<and> (\<exists>i_fp1 i_fp2 i_fp3.
         fixed_point_indices
           [cluster_point 2 210, cluster_point 2 330, cluster_point 2 90, cluster_point 2 210]
           = Inr (i_fp1, i_fp2, i_fp3)
         \<and> mset [[cluster_point 2 210, cluster_point 2 330, cluster_point 2 90, cluster_point 2 210] ! i_fp1,
                  [cluster_point 2 210, cluster_point 2 330, cluster_point 2 90, cluster_point 2 210] ! i_fp2,
                  [cluster_point 2 210, cluster_point 2 330, cluster_point 2 90, cluster_point 2 210] ! i_fp3]
             = mset (clusters 2))"
proof -
  have s: "set [cluster_point 2 210, cluster_point 2 330, cluster_point 2 90, cluster_point 2 210]
       = set (clusters 2)"
    by (auto simp: clusters_def)
  have "(0 :: real) < 2" by simp
  from three_clusters_detected [OF this s] s show ?thesis by simp
qed

section \<open>Properties of the slope window\<close>

lemma np_index_error: "np_index a i = Inl e \<Longrightarrow> e = IndexError"
  by (auto simp: np_index_def Let_def split: if_splits)

lemma np_index_beyond: "int (length a) \<le> i \<Longrightarrow> np_index a i = Inl IndexError"
  by (simp add: np_index_def Let_def)

lemma and_then_error:
  assumes "\<And>e. r = Inl e \<Longrightarrow> e = IndexError"
    and "\<And>v. r = Inr v \<Longrightarrow> f v = Inl IndexError"
  shows "and_then r f = Inl IndexError"
  using assms by (cases r) auto

text \<open>
  C7, amended: when the index of the separatrix sample closest to the septum is
  within 3 of the end of the trajectory (\<open>i_septum + 3\<close> is not an index), the
  access to the samples 3 before and after it raises an out-of-range error.
\<close>

theorem septum_window_near_end_raises:
  assumes "argmin (map (\<lambda>v. \<bar>v - x_septum\<bar>) (map s_x rec_separatrix)) = Inr i_septum"
    and "length rec_separatrix \<le> i_septum + 3"
  shows "septum_window rec_separatrix = Inl IndexError"
proof -
  have b: "np_index (map s_x rec_separatrix) (int i_septum + 3) = Inl IndexError"
    using assms(2) by (intro np_index_beyond) simp
  have "and_then (np_index (map s_x rec_separatrix) (int i_septum - 3)) (\<lambda>x_lo.
          and_then (np_index (map s_x rec_separatrix) (int i_septum + 3)) (f x_lo))
        = Inl IndexError" for f :: "real \<Rightarrow> real \<Rightarrow> error + ((real \<times> real) \<times> (real \<times> real))"
    by (rule and_then_error) (auto simp: b dest: np_index_error)
  then show ?thesis
    using assms(1) by (simp add: septum_window_def Let_def)
qed

theorem septum_window_near_end_raises_witness:
  "argmin (map (\<lambda>v. \<bar>v - x_septum\<bar>)
      (map s_x (samples_of [(0, 0), (1 / 100, 0), (2 / 100, 0), (3 / 100, 0), (35 / 1000, 0)])))
     = Inr 4
   \<and> length (samples_of [(0, 0), (1 / 100, 0), (2 / 100, 0), (3 / 100, 0), (35 / 1000, 0)]) \<le> 4 + 3
   \<and> septum_window (samples_of [(0, 0), (1 / 100, 0), (2 / 100, 0), (3 / 100, 0), (35 / 1000, 0)])
       = Inl IndexError"
proof -
  have a: "argmin (map (\<lambda>v. \<bar>v - x_septum\<bar>)
      (map s_x (samples_of [(0, 0), (1 / 100, 0), (2 / 100, 0), (3 / 100, 0), (35 / 1000, 0)])))
     = Inr 4"
    by (simp add: argmin_def samples_of_def x_septum_def)
  have l: "length (samples_of [(0, 0), (1 / 100, 0), (2 / 100, 0), (3 / 100, 0), (35 / 1000, 0)]) \<le> 4 + 3"
    by (simp add: samples_of_def)
  from septum_window_near_end_raises [OF a l] a l show ?thesis by simp
qed

text \<open>
  C7, as stated, also promises an out-of-range error when the closest sample is
  within 3 of the start. There \<open>i_septum - 3\<close> is negative and counts from the
  end of the array: with the closest sample at index 0 of 7 samples the window
  is read at indices 4 and 3, and nothing is raised.
\<close>

theorem septum_window_near_start_wraps:
  "argmin (map (\<lambda>v. \<bar>v - x_septum\<bar>)
      (map s_x (samples_of [(35 / 1000, 0), (1 / 100, 1 / 1000), (2 / 100, 2 / 1000),
         (3 / 100, 3 / 1000), (25 / 1000, 4 / 1000), (15 / 1000, 5 / 1000), (5 / 1000, 6 / 1000)])))
     = Inr 0
   \<and> septum_window (samples_of [(35 / 1000, 0), (1 / 100, 1 / 1000), (2 / 100, 2 / 1000),
         (3 / 100, 3 / 1000), (25 / 1000, 4 / 1000), (15 / 1000, 5 / 1000), (5 / 1000, 6 / 1000)])
       = Inr ((25 / 1000, 3 / 100), (4 / 1000, 3 / 1000))"
  by (simp add: septum_window_def argmin_def samples_of_def x_septum_def np_index_def)

section \<open>Properties of the boundary curve\<close>

lemma fancy_index_ok: "\<forall>i \<in> set idx. i < length a \<Longrightarrow> fancy_index a idx = Inr (map (\<lambda>i. a ! i) idx)"
  by (simp add: fancy_index_def list_all_iff)

lemma mset_argsort: "mset (argsort ks) = mset [0..<length ks]"
  by (simp add: argsort_def)

lemma set_argsort: "set (argsort ks) = {0..<length ks}"
  by (simp add: argsort_def)

lemma sorted_argsort: "sorted (map (\<lambda>i. ks ! i) (argsort ks))"
  by (simp add: argsort_def)

text \<open>
  C5, amended: the boundary curve is built from every sample of the triangle
  trajectory, whatever its state flag: the four sorted arrays are the
  trajectory read through one permutation of all its indices, which puts the
  normalized-plane angles in ascending order. The state flag is not read.
\<close>

theorem boundary_curve_keeps_every_sample:
  assumes "length nc_triangle = length rec_triangle"
  shows "\<exists>perm. mset perm = mset [0..<length rec_triangle]
           \<and> sorted (map (\<lambda>i. angle (to_complex (nc_triangle ! i))) perm)
           \<and> boundary_curve rec_triangle nc_triangle =
               Inr (map (\<lambda>i. s_x (rec_triangle ! i)) perm, map (\<lambda>i. s_px (rec_triangle ! i)) perm,
                    map (\<lambda>i. x_norm (nc_triangle ! i)) perm, map (\<lambda>i. px_norm (nc_triangle ! i)) perm)"
proof -
  let ?theta = "map (\<lambda>s. angle (to_complex s)) nc_triangle"
  let ?perm = "argsort ?theta"
  have in_range: "\<forall>i \<in> set ?perm. i < length rec_triangle"
    using assms by (simp add: set_argsort)
  have "sorted (map (\<lambda>i. ?theta ! i) ?perm)" by (rule sorted_argsort)
  moreover have "map (\<lambda>i. ?theta ! i) ?perm = map (\<lambda>i. angle (to_complex (nc_triangle ! i))) ?perm"
    using in_range assms by (intro map_cong) simp_all
  ultimately have srt: "sorted (map (\<lambda>i. angle (to_complex (nc_triangle ! i))) ?perm)" by simp
  have ms: "mset ?perm = mset [0..<length rec_triangle]"
    using assms by (simp add: mset_argsort)
  have "boundary_curve rec_triangle nc_triangle =
          Inr (map (\<lambda>i. s_x (rec_triangle ! i)) ?perm, map (\<lambda>i. s_px (rec_triangle ! i)) ?perm,
               map (\<lambda>i. x_norm (nc_triangle ! i)) ?perm, map (\<lambda>i. px_norm (nc_triangle ! i)) ?perm)"
    using in_range assms
    by (simp add: boundary_curve_def Let_def fancy_index_ok cong: map_cong)
  with ms srt show ?thesis by blast
qed

lemma angle_up: "angle (Complex 0 1) = pi / 2"
proof -
  have "Complex 0 1 = \<i>" by (simp add: complex_eq_iff)
  then show ?thesis by (simp add: angle_def)
qed

lemma angle_down: "angle (Complex 0 (- 1)) = - pi / 2"
proof -
  have "Complex 0 (- 1) = - \<i>" by (simp add: complex_eq_iff)
  then show ?thesis by (simp add: angle_def)
qed

lemma lost_sample_curve:
  "boundary_curve [\<lparr>s_x = 1 / 100, s_px = 1 / 1000, s_state = 1\<rparr>,
                   \<lparr>s_x = 2 / 100, s_px = 2 / 1000, s_state = 0\<rparr>]
                  (norm_samples_of [(0, 1), (0, - 1)])
     = Inr ([2 / 100, 1 / 100], [2 / 1000, 1 / 1000], [0, 0], [- 1, 1])"
  by (simp add: boundary_curve_def Let_def argsort_def norm_samples_of_def to_complex_def
      angle_up angle_down fancy_index_def not_le)

lemma lost_sample_curve_alive:
  "boundary_curve_alive_only [\<lparr>s_x = 1 / 100, s_px = 1 / 1000, s_state = 1\<rparr>,
                   \<lparr>s_x = 2 / 100, s_px = 2 / 1000, s_state = 0\<rparr>]
                  (norm_samples_of [(0, 1), (0, - 1)])
     = Inr ([1 / 100], [1 / 1000], [0], [1])"
  by (simp add: boundary_curve_alive_only_def alive_part_def boundary_curve_def Let_def argsort_def norm_samples_of_def to_complex_def
      angle_up angle_down fancy_index_def not_le)

text \<open>
  C5, as stated: the samples flagged as lost are dropped before the angles are
  computed and sorted. The source reads no state flag there: for a trajectory
  of two samples, the second one lost, the curve still holds both samples, and
  differs from the curve of the alive samples alone.
\<close>

theorem lost_sample_stays_on_the_curve:
  "s_state \<lparr>s_x = 2 / 100, s_px = 2 / 1000, s_state = 0\<rparr> \<le> 0
   \<and> boundary_curve [\<lparr>s_x = 1 / 100, s_px = 1 / 1000, s_state = 1\<rparr>,
                      \<lparr>s_x = 2 / 100, s_px = 2 / 1000, s_state = 0\<rparr>]
                     (norm_samples_of [(0, 1), (0, - 1)])
       = Inr ([2 / 100, 1 / 100], [2 / 1000, 1 / 1000], [0, 0], [- 1, 1])
   \<and> boundary_curve_alive_only [\<lparr>s_x = 1 / 100, s_px = 1 / 1000, s_state = 1\<rparr>,
                      \<lparr>s_x = 2 / 100, s_px = 2 / 1000, s_state = 0\<rparr>]
                     (norm_samples_of [(0, 1), (0, - 1)])
       = Inr ([1 / 100], [1 / 1000], [0], [1])
   \<and> boundary_curve [\<lparr>s_x = 1 / 100, s_px = 1 / 1000, s_state = 1\<rparr>,
                      \<lparr>s_x = 2 / 100, s_px = 2 / 1000, s_state = 0\<rparr>]
                     (norm_samples_of [(0, 1), (0, - 1)])
       \<noteq> boundary_curve_alive_only [\<lparr>s_x = 1 / 100, s_px = 1 / 1000, s_state = 1\<rparr>,
                      \<lparr>s_x = 2 / 100, s_px = 2 / 1000, s_state = 0\<rparr>]
                     (norm_samples_of [(0, 1), (0, - 1)])"
  unfolding lost_sample_curve lost_sample_curve_alive by simp

text \<open>The same two samples, one of them lost, in the amended statement.\<close>

theorem boundary_curve_keeps_every_sample_witness:
  "length (norm_samples_of [(0, 1), (0, - 1)])
     = length [\<lparr>s_x = 1 / 100, s_px = 1 / 1000, s_state = 1\<rparr>,
               \<lparr>s_x = 2 / 100, s_px = 2 / 1000, s_state = 0 :: int\<rparr>]
   \<and> (\<exists>perm. mset perm = mset [0..<2]
        \<and> boundary_curve [\<lparr>s_x = 1 / 100, s_px = 1 / 1000, s_state = 1\<rparr>,
                           \<lparr>s_x = 2 / 100, s_px = 2 / 1000, s_state = 0\<rparr>]
                          (norm_samples_of [(0, 1), (0, - 1)])
            = Inr (map (\<lambda>i. s_x ([\<lparr>s_x = 1 / 100, s_px = 1 / 1000, s_state = 1\<rparr>,
                           \<lparr>s_x = 2 / 100, s_px = 2 / 1000, s_state = 0\<rparr>] ! i)) perm,
                   map (\<lambda>i. s_px ([\<lparr>s_x = 1 / 100, s_px = 1 / 1000, s_state = 1\<rparr>,
                           \<lparr>s_x = 2 / 100, s_px = 2 / 1000, s_state = 0\<rparr>] ! i)) perm,
                   map (\<lambda>i. x_norm (norm_samples_of [(0, 1), (0, - 1)] ! i)) perm,
                   map (\<lambda>i. px_norm (norm_samples_of [(0, 1), (0, - 1)] ! i)) perm))"
proof -
  let ?r = "[\<lparr>s_x = 1 / 100, s_px = 1 / 1000, s_state = 1\<rparr>,
             \<lparr>s_x = 2 / 100, s_px = 2 / 1000, s_state = 0 :: int\<rparr>]"
  let ?n = "norm_samples_of [(0, 1), (0, - 1)]"
  have l: "length ?n = length ?r" by (simp add: norm_samples_of_def)
  have l2: "length ?r = 2" by simp
  from boundary_curve_keeps_every_sample [OF l] obtain perm where
    "mset perm = mset [0..<length ?r]"
    and "boundary_curve ?r ?n =
               Inr (map (\<lambda>i. s_x (?r ! i)) perm, map (\<lambda>i. s_px (?r ! i)) perm,
                    map (\<lambda>i. x_norm (?n ! i)) perm, map (\<lambda>i. px_norm (?n ! i)) perm)"
    by blast
  then have "\<exists>perm. mset perm = mset [0..<2] \<and> boundary_curve ?r ?n =
               Inr (map (\<lambda>i. s_x (?r ! i)) perm, map (\<lambda>i. s_px (?r ! i)) perm,
                    map (\<lambda>i. x_norm (?n ! i)) perm, map (\<lambda>i. px_norm (?n ! i)) perm)"
    unfolding l2 by blast
  with l show ?thesis by blast
qed

section \<open>Reading the fixed points\<close>

lemma quarter_list:
  "map to_complex (norm_samples_of [(1, 0), (0, 1), (- 1, 0), (0, - 1)]) = [1, \<i>, - 1, - \<i>]"
  by (simp add: norm_samples_of_def to_complex_def complex_eq_iff)

lemma quarter_indices: "fixed_point_indices [1, \<i>, - 1, - \<i>] = Inr (0, 0, 0)"
proof -
  let ?zs = "[1, \<i>, - 1, - \<i>] :: complex list"
  have i1: "first_max (map cmod ?zs) = 0" by simp
  have z1: "?zs ! 0 = 1" by simp
  have p: "first_max (masked (map cmod ?zs) (mask_near ?zs (1 * rot_plus) (cmod (1 :: complex)))) = 0"
    using quarter_far_plus by (intro masked_miss) blast
  have m: "first_max (masked (map cmod ?zs) (mask_near ?zs (1 * rot_minus) (cmod (1 :: complex)))) = 0"
    using quarter_far_minus by (intro masked_miss) blast
  have "fixed_point_indices ?zs =
    Inr (first_max (map cmod ?zs),
         first_max (masked (map cmod ?zs)
           (mask_near ?zs (?zs ! first_max (map cmod ?zs) * rot_plus) (cmod (?zs ! first_max (map cmod ?zs))))),
         first_max (masked (map cmod ?zs)
           (mask_near ?zs (?zs ! first_max (map cmod ?zs) * rot_minus) (cmod (?zs ! first_max (map cmod ?zs))))))"
    by (rule fixed_point_indices_eq) simp
  then show ?thesis by (simp only: i1 z1 p m)
qed

lemma quarter_fixed_points:
  "fixed_points (samples_of [(1 / 100, 0), (0, 1 / 1000), (- 1 / 100, 0), (0, - 1 / 1000)])
                (norm_samples_of [(1, 0), (0, 1), (- 1, 0), (0, - 1)])
     = Inr ([1 / 100, 1 / 100, 1 / 100], [0, 0, 0], [1, 1, 1], [0, 0, 0])"
  unfolding fixed_points_def Let_def quarter_list quarter_indices
  by (simp add: samples_of_def fancy_index_def)

lemma fancy_index_Inr:
  "fancy_index a idx = Inr v \<Longrightarrow> (\<forall>i \<in> set idx. i < length a) \<and> v = map (\<lambda>i. a ! i) idx"
  by (auto simp: fancy_index_def list_all_iff split: if_splits)

lemma and_then_Inr_iff: "and_then r f = Inr v \<longleftrightarrow> (\<exists>w. r = Inr w \<and> f w = Inr v)"
  by (cases r) auto

lemma fixed_point_indices_Inr:
  assumes "fixed_point_indices zs = Inr idx"
  shows "zs \<noteq> [] \<and> fst idx = first_max (map cmod zs)"
proof -
  have "zs \<noteq> []" using assms
    by (auto simp: fixed_point_indices_def argmax_def)
  then show ?thesis using assms fixed_point_indices_eq [of zs] by auto
qed

section \<open>Stable area\<close>

lemma sqrt3_less_2: "sqrt 3 < 2"
  by (simp add: real_less_lsqrt)

lemma masked_single:
  assumes "j < length zs" and "cmod (zs ! j - c) < 2 / 10 * r" and "zs ! j \<noteq> 0"
    and "\<And>i. i < length zs \<Longrightarrow> i \<noteq> j \<Longrightarrow> \<not> cmod (zs ! i - c) < 2 / 10 * r"
  shows "first_max (masked (map cmod zs) (mask_near zs c r)) = j"
proof -
  let ?vs = "masked (map cmod zs) (mask_near zs c r)"
  let ?k = "first_max ?vs"
  have ne: "?vs \<noteq> []" using assms(1) by (metis length_masked length_0_conv not_less_zero)
  then have k: "?k < length zs" using first_max_less [of ?vs] by simp
  have "?vs ! j = cmod (zs ! j)" using assms(1,2) by (simp add: masked_nth)
  moreover have "?vs ! j \<le> ?vs ! ?k" using assms(1) by (intro first_max_ge) simp
  moreover have "0 < cmod (zs ! j)" using assms(3) by simp
  ultimately have "0 < ?vs ! ?k" by linarith
  then have "cmod (zs ! ?k - c) < 2 / 10 * r"
    using k by (auto simp: masked_nth split: if_splits)
  then show ?thesis using assms(4) [OF k] by blast
qed

lemma sqrt3_gt: "3 / 2 < sqrt 3"
  by (rule real_less_rsqrt) (simp add: power2_eq_square)

lemma cmod_up: "cmod (Complex 0 1) = 1"
  by (simp add: cmod_def)

lemma near_re: "Im z = Im c \<Longrightarrow> \<bar>Re z - Re c\<bar> < 2 / 10 * r \<Longrightarrow> cmod (z - c) < 2 / 10 * r"
  by (simp add: cmod_eq_Re)

lemma far_im: "2 / 10 * r \<le> \<bar>Im z - Im c\<bar> \<Longrightarrow> \<not> cmod (z - c) < 2 / 10 * r"
  using abs_Im_le_cmod [of "z - c"] by simp

lemma unit_triangle_first: "first_max (map cmod unit_triangle) = 0"
  by (simp add: unit_triangle_def cmod_def power2_eq_square real_le_lsqrt)

lemma unit_triangle_plus:
  "first_max (masked (map cmod unit_triangle) (mask_near unit_triangle (Complex 0 1 * rot_plus) (cmod (Complex 0 1)))) = 1"
proof (rule masked_single)
  show "1 < length unit_triangle" by (simp add: unit_triangle_def)
  show "unit_triangle ! 1 \<noteq> 0" by (simp add: unit_triangle_def complex_eq_iff)
  show "cmod (unit_triangle ! 1 - Complex 0 1 * rot_plus) < 2 / 10 * cmod (Complex 0 1)"
  proof (rule near_re)
    show "Im (unit_triangle ! 1) = Im (Complex 0 1 * rot_plus)" by (simp add: unit_triangle_def rot_plus_eq)
    have "\<bar>Re (unit_triangle ! 1) - Re (Complex 0 1 * rot_plus)\<bar> = \<bar>sqrt 3 / 2 - 866 / 1000\<bar>"
      by (simp add: unit_triangle_def rot_plus_eq)
    moreover have "\<bar>sqrt 3 / 2 - 866 / 1000\<bar> < 2 / 10"
      using sqrt3_gt sqrt3_less_2 by linarith
    ultimately show "\<bar>Re (unit_triangle ! 1) - Re (Complex 0 1 * rot_plus)\<bar> < 2 / 10 * cmod (Complex 0 1)"
      by (simp add: cmod_up)
  qed
  show "\<not> cmod (unit_triangle ! i - Complex 0 1 * rot_plus) < 2 / 10 * cmod (Complex 0 1)"
    if "i < length unit_triangle" "i \<noteq> 1" for i
  proof -
    from that have "i = 0 \<or> i = 2" by (auto simp: unit_triangle_def)
    then show ?thesis
    proof
      assume "i = 0"
      then show ?thesis by (intro far_im) (simp add: unit_triangle_def rot_plus_eq cmod_up)
    next
      assume "i = 2"
      then show ?thesis using sqrt3_gt by (intro not_near) (simp add: unit_triangle_def rot_plus_eq cmod_up)
    qed
  qed
qed

lemma unit_triangle_minus:
  "first_max (masked (map cmod unit_triangle) (mask_near unit_triangle (Complex 0 1 * rot_minus) (cmod (Complex 0 1)))) = 2"
proof (rule masked_single)
  show "2 < length unit_triangle" by (simp add: unit_triangle_def)
  show "unit_triangle ! 2 \<noteq> 0" by (simp add: unit_triangle_def complex_eq_iff)
  show "cmod (unit_triangle ! 2 - Complex 0 1 * rot_minus) < 2 / 10 * cmod (Complex 0 1)"
  proof (rule near_re)
    show "Im (unit_triangle ! 2) = Im (Complex 0 1 * rot_minus)" by (simp add: unit_triangle_def rot_minus_eq)
    have "\<bar>Re (unit_triangle ! 2) - Re (Complex 0 1 * rot_minus)\<bar> = \<bar>866 / 1000 - sqrt 3 / 2\<bar>"
      by (simp add: unit_triangle_def rot_minus_eq)
    moreover have "\<bar>866 / 1000 - sqrt 3 / 2\<bar> < 2 / 10"
      using sqrt3_gt sqrt3_less_2 by linarith
    ultimately show "\<bar>Re (unit_triangle ! 2) - Re (Complex 0 1 * rot_minus)\<bar> < 2 / 10 * cmod (Complex 0 1)"
      by (simp add: cmod_up)
  qed
  show "\<not> cmod (unit_triangle ! i - Complex 0 1 * rot_minus) < 2 / 10 * cmod (Complex 0 1)"
    if "i < length unit_triangle" "i \<noteq> 2" for i
  proof -
    from that have "i = 0 \<or> i = 1" by (auto simp: unit_triangle_def)
    then show ?thesis
    proof
      assume "i = 0"
      then show ?thesis by (intro far_im) (simp add: unit_triangle_def rot_minus_eq cmod_up)
    next
      assume "i = 1"
      then show ?thesis using sqrt3_gt by (intro not_near) (simp add: unit_triangle_def rot_minus_eq cmod_up)
    qed
  qed
qed

lemma unit_triangle_indices: "fixed_point_indices unit_triangle = Inr (0, 1, 2)"
proof -
  have z1: "unit_triangle ! 0 = Complex 0 1" by (simp add: unit_triangle_def)
  have "fixed_point_indices unit_triangle =
    Inr (first_max (map cmod unit_triangle),
         first_max (masked (map cmod unit_triangle)
           (mask_near unit_triangle (unit_triangle ! first_max (map cmod unit_triangle) * rot_plus) (cmod (unit_triangle ! first_max (map cmod unit_triangle))))),
         first_max (masked (map cmod unit_triangle)
           (mask_near unit_triangle (unit_triangle ! first_max (map cmod unit_triangle) * rot_minus) (cmod (unit_triangle ! first_max (map cmod unit_triangle))))))"
    by (rule fixed_point_indices_eq) (simp add: unit_triangle_def)
  then show ?thesis by (simp only: unit_triangle_first z1 unit_triangle_plus unit_triangle_minus)
qed

lemma unit_triangle_list:
  "map to_complex (norm_samples_of [(0, 1), (- 866 / 1000, - 1 / 2), (866 / 1000, - 1 / 2)]) = unit_triangle"
  by (simp add: norm_samples_of_def to_complex_def unit_triangle_def)

lemma unit_triangle_fixed_points:
  "fixed_points (samples_of [(0, 1 / 1000), (- 866 / 100000, - 1 / 2000), (866 / 100000, - 1 / 2000)])
                (norm_samples_of [(0, 1), (- 866 / 1000, - 1 / 2), (866 / 1000, - 1 / 2)])
     = Inr ([0, - 866 / 100000, 866 / 100000], [1 / 1000, - 1 / 2000, - 1 / 2000],
            [0, - 866 / 1000, 866 / 1000], [1, - 1 / 2, - 1 / 2])"
  unfolding fixed_points_def Let_def unit_triangle_list unit_triangle_indices
  by (simp add: samples_of_def fancy_index_def unit_triangle_def)

text \<open>
  C2: for the fixed points (0, 1), (-0.866, -0.5), (0.866, -0.5), which are
  what the detection returns for a trajectory on these three points, the claim
  expects an area of magnitude \<open>3 * sqrt 3 / 4\<close>, about 1.299. The
  determinant the source returns as \<open>stable_area\<close> is 2.598, twice the area of
  the triangle, and more than 1 away from the expected value.
\<close>

theorem stable_area_is_twice_the_triangle:
  "fixed_points (samples_of [(0, 1 / 1000), (- 866 / 100000, - 1 / 2000), (866 / 100000, - 1 / 2000)])
                (norm_samples_of [(0, 1), (- 866 / 1000, - 1 / 2), (866 / 1000, - 1 / 2)])
     = Inr ([0, - 866 / 100000, 866 / 100000], [1 / 1000, - 1 / 2000, - 1 / 2000],
            [0, - 866 / 1000, 866 / 1000], [1, - 1 / 2, - 1 / 2])
   \<and> stable_area_of [0, - 866 / 1000, 866 / 1000] [1, - 1 / 2, - 1 / 2] = 2598 / 1000
   \<and> \<bar>stable_area_of [0, - 866 / 1000, 866 / 1000] [1, - 1 / 2, - 1 / 2]\<bar> - 3 * sqrt 3 / 4 > 1"
proof -
  have a: "stable_area_of [0, - 866 / 1000, 866 / 1000] [1, - 1 / 2, - 1 / 2] = 2598 / 1000"
    by (simp add: stable_area_of_def det3_def)
  show ?thesis unfolding a using sqrt3_less_2 unit_triangle_fixed_points by simp
qed

section \<open>Plotting and the returned data\<close>

lemma length_get_normalized_coordinates [simp]:
  "length (get_normalized_coordinates line r) = length r"
  by (simp add: get_normalized_coordinates_def)

lemma separatrix_curves_ok:
  "length norm_separatrix = length rec_separatrix \<Longrightarrow>
   \<exists>sep. separatrix_curves rec_separatrix norm_separatrix = Inr sep"
  by (simp add: separatrix_curves_def Let_def mask_select_def)

lemma plot_phase_space_ok:
  assumes "length norm_separatrix = length rec_separatrix"
  shows "\<exists>fig. plot_phase_space record norm_coords rec_separatrix norm_separatrix poly_sep curve fps
           = Inr fig"
proof -
  from separatrix_curves_ok [OF assms] obtain sep
    where "separatrix_curves rec_separatrix norm_separatrix = Inr sep" by blast
  then show ?thesis by (simp add: plot_phase_space_def Let_def)
qed

lemma characterize_bracket_plot:
  "map_sum id fst (characterize_bracket line True record norm_coords b)
     = map_sum id fst (characterize_bracket line False record norm_coords b)"
proof -
  let ?rs = "track line (snd b) num_turns"
  let ?rt = "track line (fst b) num_turns"
  show ?thesis
  proof (cases "septum_fit ?rs")
    case (Inl e)
    then show ?thesis by (simp add: characterize_bracket_def Let_def)
  next
    case poly: (Inr poly_sep)
    show ?thesis
    proof (cases "boundary_curve ?rt (get_normalized_coordinates line ?rt)")
      case (Inl e)
      then show ?thesis using poly by (simp add: characterize_bracket_def Let_def)
    next
      case curve: (Inr curve)
      show ?thesis
      proof (cases "fixed_points ?rt (get_normalized_coordinates line ?rt)")
        case (Inl e)
        then show ?thesis using poly curve by (simp add: characterize_bracket_def Let_def)
      next
        case fps: (Inr fps)
        have "length (get_normalized_coordinates line ?rs) = length ?rs" by simp
        from plot_phase_space_ok [OF this]
        obtain fig where "plot_phase_space record norm_coords ?rs
            (get_normalized_coordinates line ?rs) poly_sep curve fps = Inr fig"
          by blast
        then show ?thesis using poly curve fps
          by (simp add: characterize_bracket_def Let_def)
      qed
    qed
  qed
qed

text \<open>
  C10: for every line and deterministic tracker, the call returns the same
  result record (or raises the same exception, or fails to return alike)
  whether \<open>plot\<close> is true or false: the plotting branch reads the computed
  values and only adds to the figure.
\<close>

theorem plot_flag_keeps_result:
  "returned (characterize_phase_space line True) = returned (characterize_phase_space line False)"
  by (simp add: returned_def characterize_phase_space_def Let_def characterize_bracket_plot
      split: option.split)

section \<open>The fixed-point set of the result\<close>

lemma unit_disk_angle:
  assumes "cmod (w - 1) < 2 / 10"
  shows "\<bar>Arg w\<bar> \<le> arcsin (2 / 10)"
proof -
  have sq: "(Re w - 1)\<^sup>2 + (Im w)\<^sup>2 < (2 / 10)\<^sup>2"
  proof -
    have "(cmod (w - 1))\<^sup>2 < (2 / 10)\<^sup>2"
      using assms by (intro power_strict_mono) simp_all
    then show ?thesis by (simp add: cmod_power2)
  qed
  have re: "8 / 10 < Re w"
  proof -
    have "\<bar>Re (w - 1)\<bar> \<le> cmod (w - 1)" by (rule abs_Re_le_cmod)
    with assms show ?thesis by simp
  qed
  then have nz: "w \<noteq> 0" by auto
  then have pos: "0 < cmod w" by simp
  have "0 \<le> (5 * Re w - 48 / 10)\<^sup>2" by simp
  then have "24 * (Im w)\<^sup>2 \<le> (Re w)\<^sup>2"
    using sq by (simp add: power2_eq_square algebra_simps)
  then have "(Im w)\<^sup>2 \<le> (2 / 10)\<^sup>2 * ((Re w)\<^sup>2 + (Im w)\<^sup>2)"
    by (simp add: power2_eq_square)
  then have "(Im w)\<^sup>2 \<le> (2 / 10 * cmod w)\<^sup>2"
    by (simp only: power_mult_distrib cmod_power2)
  then have im: "\<bar>Im w\<bar> \<le> 2 / 10 * cmod w"
    using pos by (simp add: abs_le_square_iff [symmetric])
  have s: "\<bar>sin (Arg w)\<bar> \<le> 2 / 10"
    using im pos by (simp add: sin_Arg [OF nz] field_simps)
  have c: "0 < cos (Arg w)"
    using re pos by (simp add: cos_Arg [OF nz])
  have b: "- pi < Arg w" "Arg w \<le> pi" using Arg_bounded [of w] by simp_all
  have hi: "Arg w < pi / 2"
  proof (rule ccontr)
    assume "\<not> Arg w < pi / 2"
    then have "cos (Arg w) \<le> cos (pi / 2)"
      using b by (intro cos_monotone_0_pi_le) simp_all
    with c show False by simp
  qed
  have lo: "- (pi / 2) < Arg w"
  proof (rule ccontr)
    assume "\<not> - (pi / 2) < Arg w"
    then have "cos (- Arg w) \<le> cos (pi / 2)"
      using b by (intro cos_monotone_0_pi_le) simp_all
    with c show False by simp
  qed
  have eq: "arcsin (sin (Arg w)) = Arg w"
    using lo hi by (intro arcsin_sin) simp_all
  have "arcsin (sin (Arg w)) \<le> arcsin (2 / 10)"
    using s by (intro arcsin_le_arcsin) simp_all
  moreover have "arcsin (- (2 / 10)) \<le> arcsin (sin (Arg w))"
    using s by (intro arcsin_le_arcsin) simp_all
  ultimately show ?thesis
    unfolding eq by (simp add: arcsin_minus abs_le_iff)
qed

lemma disk_angle:
  assumes "cmod (z - c) < 2 / 10 * cmod c"
  shows "\<bar>Arg (z / c)\<bar> \<le> arcsin (2 / 10)"
proof -
  have pos: "0 < cmod c"
  proof (rule ccontr)
    assume "\<not> 0 < cmod c"
    then have "cmod c = 0" by simp
    with assms show False by simp
  qed
  then have nz: "c \<noteq> 0" by auto
  have "z / c - 1 = (z - c) / c" using nz by (simp add: diff_divide_distrib)
  then have "cmod (z / c - 1) = cmod (z - c) / cmod c" by (simp add: norm_divide)
  also have "\<dots> < 2 / 10" using assms pos by (simp add: field_simps)
  finally show ?thesis by (rule unit_disk_angle)
qed

lemma cmod_rot_plus [simp]: "cmod rot_plus = 1"
  by (simp add: rot_plus_cis)

lemma cmod_rot_minus [simp]: "cmod rot_minus = 1"
  by (simp add: rot_minus_cis)

lemma masked_hit_spec:
  assumes "j < length zs" and "cmod (zs ! j - c) < 2 / 10 * r" and "cmod c = r"
  shows "cmod (zs ! first_max (masked (map cmod zs) (mask_near zs c r)) - c) < 2 / 10 * r
         \<and> cmod (zs ! j) \<le> cmod (zs ! first_max (masked (map cmod zs) (mask_near zs c r)))"
proof -
  let ?vs = "masked (map cmod zs) (mask_near zs c r)"
  let ?k = "first_max ?vs"
  have ne: "?vs \<noteq> []" using assms(1) by (metis length_masked length_0_conv not_less_zero)
  then have k: "?k < length zs" using first_max_less [of ?vs] by simp
  have "cmod c - cmod (zs ! j) \<le> cmod (c - zs ! j)" by (rule norm_triangle_ineq2)
  then have "r - cmod (zs ! j) < 2 / 10 * r"
    using assms(2,3) by (simp add: norm_minus_commute)
  moreover have "0 < r" using assms(2) norm_ge_zero [of "zs ! j - c"] by linarith
  ultimately have pos: "0 < cmod (zs ! j)" by linarith
  have vj: "?vs ! j = cmod (zs ! j)" using assms(1,2) by (simp add: masked_nth)
  have le: "?vs ! j \<le> ?vs ! ?k" using assms(1) by (intro first_max_ge) simp
  then have "0 < ?vs ! ?k" using pos vj by linarith
  then have near: "cmod (zs ! ?k - c) < 2 / 10 * r"
    using k by (auto simp: masked_nth split: if_splits)
  then have "?vs ! ?k = cmod (zs ! ?k)" using k by (simp add: masked_nth)
  with le vj near show ?thesis by simp
qed

lemma fixed_points_detected:
  assumes "fixed_points rec_triangle nc_triangle = Inr (x_fp, px_fp, x_norm_fp, px_norm_fp)"
  shows "\<exists>i_fp1 i_fp2 i_fp3.
           i_fp1 < length rec_triangle \<and> i_fp2 < length rec_triangle \<and> i_fp3 < length rec_triangle
           \<and> i_fp1 < length nc_triangle \<and> i_fp2 < length nc_triangle \<and> i_fp3 < length nc_triangle
           \<and> x_fp = [s_x (rec_triangle ! i_fp1), s_x (rec_triangle ! i_fp2), s_x (rec_triangle ! i_fp3)]
           \<and> px_fp = [s_px (rec_triangle ! i_fp1), s_px (rec_triangle ! i_fp2), s_px (rec_triangle ! i_fp3)]
           \<and> x_norm_fp = [x_norm (nc_triangle ! i_fp1), x_norm (nc_triangle ! i_fp2),
                           x_norm (nc_triangle ! i_fp3)]
           \<and> px_norm_fp = [px_norm (nc_triangle ! i_fp1), px_norm (nc_triangle ! i_fp2),
                            px_norm (nc_triangle ! i_fp3)]
           \<and> (\<forall>j < length nc_triangle.
                 cmod (to_complex (nc_triangle ! j)) \<le> cmod (to_complex (nc_triangle ! i_fp1)))
           \<and> (\<forall>j < length nc_triangle.
                 cmod (to_complex (nc_triangle ! j) - to_complex (nc_triangle ! i_fp1) * rot_plus)
                   < 2 / 10 * cmod (to_complex (nc_triangle ! i_fp1))
                 \<longrightarrow> cmod (to_complex (nc_triangle ! i_fp2) - to_complex (nc_triangle ! i_fp1) * rot_plus)
                       < 2 / 10 * cmod (to_complex (nc_triangle ! i_fp1))
                     \<and> cmod (to_complex (nc_triangle ! j)) \<le> cmod (to_complex (nc_triangle ! i_fp2)))
           \<and> (\<forall>j < length nc_triangle.
                 cmod (to_complex (nc_triangle ! j) - to_complex (nc_triangle ! i_fp1) * rot_minus)
                   < 2 / 10 * cmod (to_complex (nc_triangle ! i_fp1))
                 \<longrightarrow> cmod (to_complex (nc_triangle ! i_fp3) - to_complex (nc_triangle ! i_fp1) * rot_minus)
                       < 2 / 10 * cmod (to_complex (nc_triangle ! i_fp1))
                     \<and> cmod (to_complex (nc_triangle ! j)) \<le> cmod (to_complex (nc_triangle ! i_fp3)))"
proof -
  let ?z = "map (\<lambda>s. Complex (s_x s) (s_px s)) rec_triangle"
  let ?zn = "map to_complex nc_triangle"
  from assms obtain idx z_fp z_norm_fp where
    idx: "fixed_point_indices ?zn = Inr idx"
    and zf: "fancy_index ?z [fst idx, fst (snd idx), snd (snd idx)] = Inr z_fp"
    and znf: "fancy_index ?zn [fst idx, fst (snd idx), snd (snd idx)] = Inr z_norm_fp"
    and res: "(x_fp, px_fp, x_norm_fp, px_norm_fp)
                = (map Re z_fp, map Im z_fp, map Re z_norm_fp, map Im z_norm_fp)"
    by (auto simp: fixed_points_def Let_def and_then_Inr_iff)
  let ?i1 = "fst idx" and ?i2 = "fst (snd idx)" and ?i3 = "snd (snd idx)"
  from fancy_index_Inr [OF zf] have
    b: "?i1 < length rec_triangle" "?i2 < length rec_triangle" "?i3 < length rec_triangle"
    and zfe: "z_fp = [?z ! ?i1, ?z ! ?i2, ?z ! ?i3]" by simp_all
  from fancy_index_Inr [OF znf] have
    bn: "?i1 < length nc_triangle" "?i2 < length nc_triangle" "?i3 < length nc_triangle"
    and znfe: "z_norm_fp = [?zn ! ?i1, ?zn ! ?i2, ?zn ! ?i3]" by simp_all
  have ne: "?zn \<noteq> []" using fixed_point_indices_Inr [OF idx] by simp
  have i1: "?i1 = first_max (map cmod ?zn)"
    using fixed_point_indices_Inr [OF idx] by simp
  have i2: "?i2 = first_max (masked (map cmod ?zn)
      (mask_near ?zn (?zn ! ?i1 * rot_plus) (cmod (?zn ! ?i1))))"
    and i3: "?i3 = first_max (masked (map cmod ?zn)
      (mask_near ?zn (?zn ! ?i1 * rot_minus) (cmod (?zn ! ?i1))))"
    using idx fixed_point_indices_eq [OF ne] by (auto simp: i1)
  have nth: "?zn ! j = to_complex (nc_triangle ! j)" if "j < length nc_triangle" for j
    using that by simp
  have mx: "cmod (to_complex (nc_triangle ! j)) \<le> cmod (to_complex (nc_triangle ! ?i1))"
    if "j < length nc_triangle" for j
  proof -
    have "map cmod ?zn ! j \<le> map cmod ?zn ! first_max (map cmod ?zn)"
      using that by (intro first_max_ge) simp
    then show ?thesis unfolding i1 [symmetric] using that bn(1) by simp
  qed
  have plus: "cmod (to_complex (nc_triangle ! ?i2) - to_complex (nc_triangle ! ?i1) * rot_plus)
                < 2 / 10 * cmod (to_complex (nc_triangle ! ?i1))
              \<and> cmod (to_complex (nc_triangle ! j)) \<le> cmod (to_complex (nc_triangle ! ?i2))"
    if "j < length nc_triangle"
      and "cmod (to_complex (nc_triangle ! j) - to_complex (nc_triangle ! ?i1) * rot_plus)
             < 2 / 10 * cmod (to_complex (nc_triangle ! ?i1))" for j
  proof -
    have "cmod (?zn ! ?i2 - ?zn ! ?i1 * rot_plus) < 2 / 10 * cmod (?zn ! ?i1)
          \<and> cmod (?zn ! j) \<le> cmod (?zn ! ?i2)"
      unfolding i2 using that bn(1)
      by (intro masked_hit_spec) (simp_all add: norm_mult)
    then show ?thesis using that(1) bn by (simp only: nth)
  qed
  have minus: "cmod (to_complex (nc_triangle ! ?i3) - to_complex (nc_triangle ! ?i1) * rot_minus)
                < 2 / 10 * cmod (to_complex (nc_triangle ! ?i1))
              \<and> cmod (to_complex (nc_triangle ! j)) \<le> cmod (to_complex (nc_triangle ! ?i3))"
    if "j < length nc_triangle"
      and "cmod (to_complex (nc_triangle ! j) - to_complex (nc_triangle ! ?i1) * rot_minus)
             < 2 / 10 * cmod (to_complex (nc_triangle ! ?i1))" for j
  proof -
    have "cmod (?zn ! ?i3 - ?zn ! ?i1 * rot_minus) < 2 / 10 * cmod (?zn ! ?i1)
          \<and> cmod (?zn ! j) \<le> cmod (?zn ! ?i3)"
      unfolding i3 using that bn(1)
      by (intro masked_hit_spec) (simp_all add: norm_mult)
    then show ?thesis using that(1) bn by (simp only: nth)
  qed
  have "x_fp = [s_x (rec_triangle ! ?i1), s_x (rec_triangle ! ?i2), s_x (rec_triangle ! ?i3)]"
    "px_fp = [s_px (rec_triangle ! ?i1), s_px (rec_triangle ! ?i2), s_px (rec_triangle ! ?i3)]"
    using res zfe b by simp_all
  moreover have
    "x_norm_fp = [x_norm (nc_triangle ! ?i1), x_norm (nc_triangle ! ?i2), x_norm (nc_triangle ! ?i3)]"
    "px_norm_fp = [px_norm (nc_triangle ! ?i1), px_norm (nc_triangle ! ?i2), px_norm (nc_triangle ! ?i3)]"
    using res znfe bn by (simp_all add: to_complex_def)
  ultimately show ?thesis using b bn mx plus minus by blast
qed

lemma characterize_bracket_Inr:
  assumes "characterize_bracket line plot record norm_coords b = Inr (res, fig)"
  shows "fixed_points (track line (fst b) num_turns)
           (get_normalized_coordinates line (track line (fst b) num_turns))
         = Inr (x_fixed_points res, px_fixed_points res,
                x_norm_fixed_points res, px_norm_fixed_points res)"
  using assms
  by (auto simp: characterize_bracket_def Let_def and_then_Inr_iff split: if_splits)

lemma characterize_phase_space_Inr:
  assumes "characterize_phase_space line plot = Some (Inr (res, fig))"
  shows "\<exists>b. locate_separatrix line = Some b
           \<and> fixed_points (track line (fst b) num_turns)
                (get_normalized_coordinates line (track line (fst b) num_turns))
              = Inr (x_fixed_points res, px_fixed_points res,
                     x_norm_fixed_points res, px_norm_fixed_points res)"
  using assms
  by (auto simp: characterize_phase_space_def locate_separatrix_def Let_def
      split: option.splits dest: characterize_bracket_Inr)

lemma arcsin_fifth_bound: "0 \<le> arcsin (2 / 10)" "arcsin (2 / 10) < pi / 2"
  using arcsin_lt_bounded [of "2 / 10"] arcsin_le_arcsin [of 0 "2 / 10"] by simp_all

lemma quotient_angle:
  assumes "\<bar>Arg a\<bar> \<le> t" and "\<bar>Arg b\<bar> \<le> t" and "a \<noteq> 0" and "b \<noteq> 0" and "2 * t < pi"
  shows "\<bar>Arg (a / b)\<bar> \<le> 2 * t"
proof -
  have "sgn (a / b) = sgn a / sgn b"
    by (simp add: sgn_eq norm_divide)
  also have "\<dots> = cis (Arg a) / cis (Arg b)"
    using assms(3,4) by (simp add: cis_Arg)
  also have "\<dots> = cis (Arg a - Arg b)" by (rule cis_divide)
  finally have "Arg (a / b) = Arg a - Arg b"
    using assms(1,2,5) by (intro cis_Arg_unique) (simp_all add: abs_le_iff)
  then show ?thesis using assms(1,2) by (simp add: abs_le_iff)
qed

lemma rot_plus_square: "rot_plus * rot_plus = rot_minus"
  by (simp add: rot_plus_eq rot_minus_eq complex_eq_iff)

lemma rot_plus_minus: "rot_plus * rot_minus = 1"
  by (simp add: rot_plus_eq rot_minus_eq complex_eq_iff)

lemma near_nonzero:
  assumes "cmod (z - c) < 2 / 10 * cmod c"
  shows "z \<noteq> 0 \<and> c \<noteq> 0"
proof -
  have pc: "0 < cmod c" using assms norm_ge_zero [of "z - c"] by (cases "cmod c = 0") auto
  have "cmod c - cmod z \<le> cmod (c - z)" by (rule norm_triangle_ineq2)
  then have "cmod c - cmod z \<le> cmod (z - c)" by (simp only: norm_minus_commute)
  with assms pc have "0 < cmod z" by linarith
  then show ?thesis using pc by auto
qed

lemma turn_between_second_and_third:
  assumes "cmod (z2 - z1 * rot_plus) < 2 / 10 * cmod z1"
    and "cmod (z3 - z1 * rot_minus) < 2 / 10 * cmod z1"
  shows "\<bar>Arg (z3 / (z2 * rot_plus))\<bar> \<le> 2 * arcsin (2 / 10)"
proof -
  have a2: "cmod (z2 - z1 * rot_plus) < 2 / 10 * cmod (z1 * rot_plus)"
    and a3: "cmod (z3 - z1 * rot_minus) < 2 / 10 * cmod (z1 * rot_minus)"
    using assms by (simp_all add: norm_mult)
  have nz: "z2 \<noteq> 0" "z3 \<noteq> 0" "z1 \<noteq> 0"
    using near_nonzero [OF a2] near_nonzero [OF a3] by auto
  have rp: "rot_plus \<noteq> 0" and rm: "rot_minus \<noteq> 0"
    using rot_plus_minus by auto
  have w2: "\<bar>Arg (z2 / (z1 * rot_plus))\<bar> \<le> arcsin (2 / 10)" using a2 by (rule disk_angle)
  have w3: "\<bar>Arg (z3 / (z1 * rot_minus))\<bar> \<le> arcsin (2 / 10)" using a3 by (rule disk_angle)
  have "rot_plus / rot_minus = 1 / rot_plus"
    using rp rm rot_plus_square by (simp add: field_simps)
  then have "(z3 / (z1 * rot_minus)) / (z2 / (z1 * rot_plus)) = z3 / (z2 * rot_plus)"
    using nz rp rm by (simp add: field_simps)
  moreover have "\<bar>Arg ((z3 / (z1 * rot_minus)) / (z2 / (z1 * rot_plus)))\<bar> \<le> 2 * arcsin (2 / 10)"
    using w3 w2 nz rp rm arcsin_fifth_bound by (intro quotient_angle) simp_all
  ultimately show ?thesis by simp
qed

lemma sqrt3_less_9_5: "sqrt 3 < 9 / 5"
  by (rule real_less_lsqrt) (simp_all add: power2_eq_square)

lemma sqrt_25: "sqrt 25 = 5"
  by (rule real_sqrt_unique) simp_all

lemma tie_radii:
  "cmod (Complex 0 5) = 5" "cmod (Complex (- 4) (- 3)) = 5" "cmod (Complex 4 (- 3)) = 5"
  by (simp_all add: cmod_def sqrt_25)

lemma near_sum:
  "\<bar>Re z - Re c\<bar> + \<bar>Im z - Im c\<bar> < 2 / 10 * r \<Longrightarrow> cmod (z - c) < 2 / 10 * r"
  using cmod_le [of "z - c"] by simp

lemma tie_near_plus:
  "cmod (Complex (- 4) (- 3) - Complex 0 5 * rot_plus) < 2 / 10 * cmod (Complex 0 5)"
proof (rule near_sum)
  have "\<bar>5 * sqrt 3 / 2 - 4\<bar> + 1 / 2 < 1" using sqrt3_gt sqrt3_less_9_5 by linarith
  then show "\<bar>Re (Complex (- 4) (- 3)) - Re (Complex 0 5 * rot_plus)\<bar>
      + \<bar>Im (Complex (- 4) (- 3)) - Im (Complex 0 5 * rot_plus)\<bar> < 2 / 10 * cmod (Complex 0 5)"
    by (simp add: rot_plus_eq tie_radii)
qed

lemma tie_near_minus:
  "cmod (Complex 4 (- 3) - Complex 0 5 * rot_minus) < 2 / 10 * cmod (Complex 0 5)"
proof (rule near_sum)
  have "\<bar>4 - 5 * sqrt 3 / 2\<bar> + 1 / 2 < 1" using sqrt3_gt sqrt3_less_9_5 by linarith
  then show "\<bar>Re (Complex 4 (- 3)) - Re (Complex 0 5 * rot_minus)\<bar>
      + \<bar>Im (Complex 4 (- 3)) - Im (Complex 0 5 * rot_minus)\<bar> < 2 / 10 * cmod (Complex 0 5)"
    by (simp add: rot_minus_eq tie_radii)
qed

lemma tie_indices:
  "fixed_point_indices [Complex 0 5, Complex (- 4) (- 3), Complex 4 (- 3)] = Inr (0, 1, 2)"
proof -
  let ?zs = "[Complex 0 5, Complex (- 4) (- 3), Complex 4 (- 3)]"
  have i1: "first_max (map cmod ?zs) = 0"
    by (rule first_max_all_equal [where c = 5]) (auto simp: tie_radii)
  have z1: "?zs ! 0 = Complex 0 5" by simp
  have i2: "first_max (masked (map cmod ?zs)
      (mask_near ?zs (Complex 0 5 * rot_plus) (cmod (Complex 0 5)))) = 1"
  proof (rule masked_single)
    show "1 < length ?zs" by simp
    show "cmod (?zs ! 1 - Complex 0 5 * rot_plus) < 2 / 10 * cmod (Complex 0 5)"
      using tie_near_plus by simp
    show "?zs ! 1 \<noteq> 0" by (simp add: complex_eq_iff)
    show "\<not> cmod (?zs ! i - Complex 0 5 * rot_plus) < 2 / 10 * cmod (Complex 0 5)"
      if "i < length ?zs" "i \<noteq> 1" for i
    proof -
      from that have "i = 0 \<or> i = 2" by auto
      then show ?thesis
      proof
        assume "i = 0"
        then show ?thesis by (intro far_im) (simp add: rot_plus_eq tie_radii)
      next
        assume "i = 2"
        then show ?thesis using sqrt3_gt by (intro not_near) (simp add: rot_plus_eq tie_radii)
      qed
    qed
  qed
  have i3: "first_max (masked (map cmod ?zs)
      (mask_near ?zs (Complex 0 5 * rot_minus) (cmod (Complex 0 5)))) = 2"
  proof (rule masked_single)
    show "2 < length ?zs" by simp
    show "cmod (?zs ! 2 - Complex 0 5 * rot_minus) < 2 / 10 * cmod (Complex 0 5)"
      using tie_near_minus by simp
    show "?zs ! 2 \<noteq> 0" by (simp add: complex_eq_iff)
    show "\<not> cmod (?zs ! i - Complex 0 5 * rot_minus) < 2 / 10 * cmod (Complex 0 5)"
      if "i < length ?zs" "i \<noteq> 2" for i
    proof -
      from that have "i = 0 \<or> i = 1" by auto
      then show ?thesis
      proof
        assume "i = 0"
        then show ?thesis by (intro far_im) (simp add: rot_minus_eq tie_radii)
      next
        assume "i = 1"
        then show ?thesis using sqrt3_gt by (intro not_near) (simp add: rot_minus_eq tie_radii)
      qed
    qed
  qed
  have "fixed_point_indices ?zs =
    Inr (first_max (map cmod ?zs),
         first_max (masked (map cmod ?zs)
           (mask_near ?zs (?zs ! first_max (map cmod ?zs) * rot_plus) (cmod (?zs ! first_max (map cmod ?zs))))),
         first_max (masked (map cmod ?zs)
           (mask_near ?zs (?zs ! first_max (map cmod ?zs) * rot_minus) (cmod (?zs ! first_max (map cmod ?zs))))))"
    by (rule fixed_point_indices_eq) simp
  then show ?thesis by (simp only: i1 z1 i2 i3)
qed

lemma tie_list:
  "map to_complex (norm_samples_of [(0, 5), (- 4, - 3), (4, - 3)])
     = [Complex 0 5, Complex (- 4) (- 3), Complex 4 (- 3)]"
  by (simp add: norm_samples_of_def to_complex_def)

lemma tie_fixed_points:
  "fixed_points (samples_of [(0, 5 / 100), (- 4 / 100, - 3 / 100), (4 / 100, - 3 / 100)])
                (norm_samples_of [(0, 5), (- 4, - 3), (4, - 3)])
     = Inr ([0, - 4 / 100, 4 / 100], [5 / 100, - 3 / 100, - 3 / 100], [0, - 4, 4], [5, - 3, - 3])"
  unfolding fixed_points_def Let_def tie_list tie_indices
  by (simp add: samples_of_def fancy_index_def)

lemma tie_not_unique:
  "\<not> unique_max_radius (map (\<lambda>(a, b). Complex a b) (zip [0, - 4, 4] [5, - 3, - 3]))"
  by (simp add: unique_max_radius_def upt_rec tie_radii)

text \<open>
  C8, as stated, promises three points about 120 degrees apart, one of them the
  unique point of maximum radius. For a trajectory that visits the four points
  of a square in the normalized plane, both masks miss, index 0 is returned
  three times and the three fixed points coincide: no point has a radius above
  the others and the angular gaps are 0. And where both masks hit, the maximum
  radius need not be unique either: for the trajectory (0, 5), (-4, -3),
  (4, -3) the three returned points all have radius 5.
\<close>

theorem fixed_points_can_coincide:
  "fixed_points (samples_of [(1 / 100, 0), (0, 1 / 1000), (- 1 / 100, 0), (0, - 1 / 1000)])
                (norm_samples_of [(1, 0), (0, 1), (- 1, 0), (0, - 1)])
     = Inr ([1 / 100, 1 / 100, 1 / 100], [0, 0, 0], [1, 1, 1], [0, 0, 0])
   \<and> \<not> unique_max_radius (map (\<lambda>(a, b). Complex a b) (zip [1, 1, 1] [0, 0, 0]))
   \<and> angular_gaps (map (\<lambda>(a, b). Complex a b) (zip [1, 1, 1] [0, 0, 0])) = [0, 0]
   \<and> fixed_points (samples_of [(0, 5 / 100), (- 4 / 100, - 3 / 100), (4 / 100, - 3 / 100)])
                  (norm_samples_of [(0, 5), (- 4, - 3), (4, - 3)])
       = Inr ([0, - 4 / 100, 4 / 100], [5 / 100, - 3 / 100, - 3 / 100], [0, - 4, 4], [5, - 3, - 3])
   \<and> cmod (Complex (- 4) (- 3) - Complex 0 5 * rot_plus) < 2 / 10 * cmod (Complex 0 5)
   \<and> cmod (Complex 4 (- 3) - Complex 0 5 * rot_minus) < 2 / 10 * cmod (Complex 0 5)
   \<and> \<not> unique_max_radius (map (\<lambda>(a, b). Complex a b) (zip [0, - 4, 4] [5, - 3, - 3]))"
proof -
  have "\<not> unique_max_radius (map (\<lambda>(a, b). Complex a b) (zip [1, 1, 1] [0, 0, 0]))"
    by (simp add: unique_max_radius_def upt_rec)
  moreover have "angular_gaps (map (\<lambda>(a, b). Complex a b) (zip [1, 1, 1] [0, 0, 0])) = [0, 0]"
    by (simp add: angular_gaps_def upt_rec)
  ultimately show ?thesis
    using quarter_fixed_points tie_fixed_points tie_near_plus tie_near_minus tie_not_unique
    by blast
qed

text \<open>
  C8, amended: whenever the call returns a result, there are three indices of
  the unsorted triangle trajectory (the particle tracked at \<open>x_stable\<close>) at
  which the k-th physical and the k-th normalized fixed point of the result are
  both read. The first point has the largest normalized radius of the
  trajectory; it need not be the only sample of that radius. Whenever some
  sample lies within \<open>0.2 * r1\<close> of the first point \<open>z1\<close> turned by +120
  degrees (respectively -120 degrees), the second (respectively third) point
  lies within \<open>0.2 * r1\<close> of that turned point, so its direction is 120 degrees
  from that of \<open>z1\<close> up to \<open>arcsin 0.2\<close> (about 11.5 degrees), and no sample
  of that disk has a larger radius. When both hold, the third point is 120
  degrees from the second up to \<open>2 * arcsin 0.2\<close> (about 23 degrees).
  Nothing is promised about the spacing when a mask misses.
\<close>

theorem returned_fixed_point_set:
  assumes "characterize_phase_space line plot = Some (Inr (res, fig))"
  shows "\<exists>x_stable x_unstable i_fp1 i_fp2 i_fp3.
           locate_separatrix line = Some (x_stable, x_unstable)
           \<and> (let rec_triangle = track line x_stable num_turns;
                   zs = map to_complex (get_normalized_coordinates line rec_triangle)
               in i_fp1 < length rec_triangle \<and> i_fp2 < length rec_triangle
                  \<and> i_fp3 < length rec_triangle
                  \<and> x_fixed_points res
                      = [s_x (rec_triangle ! i_fp1), s_x (rec_triangle ! i_fp2),
                         s_x (rec_triangle ! i_fp3)]
                  \<and> px_fixed_points res
                      = [s_px (rec_triangle ! i_fp1), s_px (rec_triangle ! i_fp2),
                         s_px (rec_triangle ! i_fp3)]
                  \<and> x_norm_fixed_points res = [Re (zs ! i_fp1), Re (zs ! i_fp2), Re (zs ! i_fp3)]
                  \<and> px_norm_fixed_points res = [Im (zs ! i_fp1), Im (zs ! i_fp2), Im (zs ! i_fp3)]
                  \<and> (\<forall>j < length zs. cmod (zs ! j) \<le> cmod (zs ! i_fp1))
                  \<and> (\<forall>j < length zs.
                        cmod (zs ! j - zs ! i_fp1 * rot_plus) < 2 / 10 * cmod (zs ! i_fp1)
                        \<longrightarrow> cmod (zs ! i_fp2 - zs ! i_fp1 * rot_plus) < 2 / 10 * cmod (zs ! i_fp1)
                            \<and> \<bar>Arg (zs ! i_fp2 / (zs ! i_fp1 * rot_plus))\<bar> \<le> arcsin (2 / 10)
                            \<and> cmod (zs ! j) \<le> cmod (zs ! i_fp2))
                  \<and> (\<forall>j < length zs.
                        cmod (zs ! j - zs ! i_fp1 * rot_minus) < 2 / 10 * cmod (zs ! i_fp1)
                        \<longrightarrow> cmod (zs ! i_fp3 - zs ! i_fp1 * rot_minus) < 2 / 10 * cmod (zs ! i_fp1)
                            \<and> \<bar>Arg (zs ! i_fp3 / (zs ! i_fp1 * rot_minus))\<bar> \<le> arcsin (2 / 10)
                            \<and> cmod (zs ! j) \<le> cmod (zs ! i_fp3))
                  \<and> ((\<exists>j < length zs.
                         cmod (zs ! j - zs ! i_fp1 * rot_plus) < 2 / 10 * cmod (zs ! i_fp1))
                      \<and> (\<exists>j < length zs.
                         cmod (zs ! j - zs ! i_fp1 * rot_minus) < 2 / 10 * cmod (zs ! i_fp1))
                      \<longrightarrow> \<bar>Arg (zs ! i_fp3 / (zs ! i_fp2 * rot_plus))\<bar> \<le> 2 * arcsin (2 / 10)))"
proof -
  from characterize_phase_space_Inr [OF assms] obtain b where
    loc: "locate_separatrix line = Some b"
    and fp: "fixed_points (track line (fst b) num_turns)
                (get_normalized_coordinates line (track line (fst b) num_turns))
              = Inr (x_fixed_points res, px_fixed_points res,
                     x_norm_fixed_points res, px_norm_fixed_points res)"
    by blast
  let ?rec = "track line (fst b) num_turns"
  let ?nc = "get_normalized_coordinates line ?rec"
  let ?zs = "map to_complex ?nc"
  from fixed_points_detected [OF fp] obtain i1 i2 i3 where
    b: "i1 < length ?rec" "i2 < length ?rec" "i3 < length ?rec"
    and x: "x_fixed_points res = [s_x (?rec ! i1), s_x (?rec ! i2), s_x (?rec ! i3)]"
    and px: "px_fixed_points res = [s_px (?rec ! i1), s_px (?rec ! i2), s_px (?rec ! i3)]"
    and xn: "x_norm_fixed_points res = [x_norm (?nc ! i1), x_norm (?nc ! i2), x_norm (?nc ! i3)]"
    and pxn: "px_norm_fixed_points res = [px_norm (?nc ! i1), px_norm (?nc ! i2), px_norm (?nc ! i3)]"
    and mx: "\<forall>j < length ?nc. cmod (to_complex (?nc ! j)) \<le> cmod (to_complex (?nc ! i1))"
    and plus: "\<forall>j < length ?nc.
                 cmod (to_complex (?nc ! j) - to_complex (?nc ! i1) * rot_plus)
                   < 2 / 10 * cmod (to_complex (?nc ! i1))
                 \<longrightarrow> cmod (to_complex (?nc ! i2) - to_complex (?nc ! i1) * rot_plus)
                       < 2 / 10 * cmod (to_complex (?nc ! i1))
                     \<and> cmod (to_complex (?nc ! j)) \<le> cmod (to_complex (?nc ! i2))"
    and minus: "\<forall>j < length ?nc.
                 cmod (to_complex (?nc ! j) - to_complex (?nc ! i1) * rot_minus)
                   < 2 / 10 * cmod (to_complex (?nc ! i1))
                 \<longrightarrow> cmod (to_complex (?nc ! i3) - to_complex (?nc ! i1) * rot_minus)
                       < 2 / 10 * cmod (to_complex (?nc ! i1))
                     \<and> cmod (to_complex (?nc ! j)) \<le> cmod (to_complex (?nc ! i3))"
    by blast
  have len: "length ?nc = length ?rec" by simp
  have nth: "?zs ! j = to_complex (?nc ! j)" if "j < length ?rec" for j
    using that by simp
  have ang_p: "\<bar>Arg (z / (c * rot_plus))\<bar> \<le> arcsin (2 / 10)"
    if "cmod (z - c * rot_plus) < 2 / 10 * cmod c" for z c
    using that by (intro disk_angle) (simp add: norm_mult)
  have ang_m: "\<bar>Arg (z / (c * rot_minus))\<bar> \<le> arcsin (2 / 10)"
    if "cmod (z - c * rot_minus) < 2 / 10 * cmod c" for z c
    using that by (intro disk_angle) (simp add: norm_mult)
  have xn': "x_norm_fixed_points res = [Re (?zs ! i1), Re (?zs ! i2), Re (?zs ! i3)]"
    and pxn': "px_norm_fixed_points res = [Im (?zs ! i1), Im (?zs ! i2), Im (?zs ! i3)]"
    using xn pxn b by (simp_all add: to_complex_def)
  have mx': "\<forall>j < length ?zs. cmod (?zs ! j) \<le> cmod (?zs ! i1)"
    using mx b(1) by simp
  have plus': "\<forall>j < length ?zs.
        cmod (?zs ! j - ?zs ! i1 * rot_plus) < 2 / 10 * cmod (?zs ! i1)
        \<longrightarrow> cmod (?zs ! i2 - ?zs ! i1 * rot_plus) < 2 / 10 * cmod (?zs ! i1)
            \<and> \<bar>Arg (?zs ! i2 / (?zs ! i1 * rot_plus))\<bar> \<le> arcsin (2 / 10)
            \<and> cmod (?zs ! j) \<le> cmod (?zs ! i2)"
    using plus b ang_p [of "?zs ! i2" "?zs ! i1"] by simp
  have minus': "\<forall>j < length ?zs.
        cmod (?zs ! j - ?zs ! i1 * rot_minus) < 2 / 10 * cmod (?zs ! i1)
        \<longrightarrow> cmod (?zs ! i3 - ?zs ! i1 * rot_minus) < 2 / 10 * cmod (?zs ! i1)
            \<and> \<bar>Arg (?zs ! i3 / (?zs ! i1 * rot_minus))\<bar> \<le> arcsin (2 / 10)
            \<and> cmod (?zs ! j) \<le> cmod (?zs ! i3)"
    using minus b ang_m [of "?zs ! i3" "?zs ! i1"] by simp
  have both: "\<bar>Arg (?zs ! i3 / (?zs ! i2 * rot_plus))\<bar> \<le> 2 * arcsin (2 / 10)"
    if hp: "\<exists>j < length ?zs. cmod (?zs ! j - ?zs ! i1 * rot_plus) < 2 / 10 * cmod (?zs ! i1)"
      and hm: "\<exists>j < length ?zs. cmod (?zs ! j - ?zs ! i1 * rot_minus) < 2 / 10 * cmod (?zs ! i1)"
  proof -
    from hp plus' have n2: "cmod (?zs ! i2 - ?zs ! i1 * rot_plus) < 2 / 10 * cmod (?zs ! i1)"
      by blast
    from hm minus' have n3: "cmod (?zs ! i3 - ?zs ! i1 * rot_minus) < 2 / 10 * cmod (?zs ! i1)"
      by blast
    show ?thesis using n2 n3 by (rule turn_between_second_and_third)
  qed
  have "locate_separatrix line = Some (fst b, snd b)" using loc by simp
  then show ?thesis
    unfolding Let_def using b x px xn' pxn' mx' plus' minus' both by blast
qed

lemma first_max_unique:
  assumes "j < length vs" and "\<And>i. i < length vs \<Longrightarrow> i \<noteq> j \<Longrightarrow> vs ! i < vs ! j"
  shows "first_max vs = j"
proof (rule ccontr)
  assume n: "first_max vs \<noteq> j"
  have "vs \<noteq> []" using assms(1) by auto
  then have "first_max vs < length vs" by (rule first_max_less)
  from assms(2) [OF this n] first_max_ge [OF assms(1)] show False by simp
qed

lemma first_min_less: "vs \<noteq> [] \<Longrightarrow> first_min vs < length vs"
  by (induction vs) (auto simp: Let_def)

lemma first_min_le: "j < length vs \<Longrightarrow> vs ! first_min vs \<le> vs ! j"
proof (induction vs arbitrary: j)
  case Nil
  then show ?case by simp
next
  case (Cons v vs)
  show ?case
  proof (cases "vs = []")
    case True
    with Cons.prems show ?thesis by simp
  next
    case False
    show ?thesis
    proof (cases j)
      case 0
      then show ?thesis using False by (simp add: Let_def)
    next
      case (Suc i)
      with Cons.prems have "i < length vs" by simp
      from Cons.IH [OF this] show ?thesis using False Suc by (auto simp: Let_def)
    qed
  qed
qed

lemma first_min_unique:
  assumes "j < length vs" and "\<And>i. i < length vs \<Longrightarrow> i \<noteq> j \<Longrightarrow> vs ! j < vs ! i"
  shows "first_min vs = j"
proof (rule ccontr)
  assume n: "first_min vs \<noteq> j"
  have "vs \<noteq> []" using assms(1) by auto
  then have "first_min vs < length vs" by (rule first_min_less)
  from assms(2) [OF this n] first_min_le [OF assms(1)] show False by simp
qed

lemma triangle_normalized:
  "map to_complex (get_normalized_coordinates triangle_line (triangle_record n))
     = map triangle_point [0..<n]"
  by (rule nth_equalityI)
    (simp_all add: get_normalized_coordinates_def triangle_line_def triangle_record_def
      to_complex_def complex_eq_iff)

lemma triangle_radius: "i \<noteq> 6 \<Longrightarrow> cmod (triangle_point i) < cmod (triangle_point 6)"
  by (simp add: triangle_point_def cmod_def power2_eq_square real_less_lsqrt)

lemma triangle_near_plus:
  "cmod (triangle_point 2 - triangle_point 6 * rot_plus) < 2 / 10 * cmod (triangle_point 6)"
proof -
  have "cmod (Complex (- 866 / 1000) (- 1 / 2) - Complex 0 1 * rot_plus)
          < 2 / 10 * cmod (Complex 0 1)"
  proof (rule near_re)
    show "Im (Complex (- 866 / 1000) (- 1 / 2)) = Im (Complex 0 1 * rot_plus)"
      by (simp add: rot_plus_eq)
    have "\<bar>sqrt 3 / 2 - 866 / 1000\<bar> < 2 / 10"
      using sqrt3_gt sqrt3_less_2 by linarith
    then show "\<bar>Re (Complex (- 866 / 1000) (- 1 / 2)) - Re (Complex 0 1 * rot_plus)\<bar>
                 < 2 / 10 * cmod (Complex 0 1)"
      by (simp add: rot_plus_eq cmod_up)
  qed
  then show ?thesis by (simp add: triangle_point_def)
qed

lemma triangle_near_minus:
  "cmod (triangle_point 5 - triangle_point 6 * rot_minus) < 2 / 10 * cmod (triangle_point 6)"
proof -
  have "cmod (Complex (866 / 1000) (- 1 / 2) - Complex 0 1 * rot_minus)
          < 2 / 10 * cmod (Complex 0 1)"
  proof (rule near_re)
    show "Im (Complex (866 / 1000) (- 1 / 2)) = Im (Complex 0 1 * rot_minus)"
      by (simp add: rot_minus_eq)
    have "\<bar>866 / 1000 - sqrt 3 / 2\<bar> < 2 / 10"
      using sqrt3_gt sqrt3_less_2 by linarith
    then show "\<bar>Re (Complex (866 / 1000) (- 1 / 2)) - Re (Complex 0 1 * rot_minus)\<bar>
                 < 2 / 10 * cmod (Complex 0 1)"
      by (simp add: rot_minus_eq cmod_up)
  qed
  then show ?thesis by (simp add: triangle_point_def)
qed

lemma triangle_far_plus:
  assumes "i \<noteq> 2"
  shows "\<not> cmod (triangle_point i - triangle_point 6 * rot_plus) < 2 / 10 * cmod (triangle_point 6)"
proof -
  consider "i = 5" | "i = 6" | "i \<noteq> 2" "i \<noteq> 5" "i \<noteq> 6" using assms by blast
  then show ?thesis
  proof cases
    case 1
    then show ?thesis using sqrt3_gt
      by (intro not_near) (simp add: triangle_point_def rot_plus_eq cmod_up)
  next
    case 2
    then show ?thesis
      by (intro far_im) (simp add: triangle_point_def rot_plus_eq cmod_up)
  next
    case 3
    then show ?thesis by (simp add: triangle_point_def norm_mult cmod_up)
  qed
qed

lemma triangle_far_minus:
  assumes "i \<noteq> 5"
  shows "\<not> cmod (triangle_point i - triangle_point 6 * rot_minus) < 2 / 10 * cmod (triangle_point 6)"
proof -
  consider "i = 2" | "i = 6" | "i \<noteq> 2" "i \<noteq> 5" "i \<noteq> 6" using assms by blast
  then show ?thesis
  proof cases
    case 1
    then show ?thesis using sqrt3_gt
      by (intro not_near) (simp add: triangle_point_def rot_minus_eq cmod_up)
  next
    case 2
    then show ?thesis
      by (intro far_im) (simp add: triangle_point_def rot_minus_eq cmod_up)
  next
    case 3
    then show ?thesis by (simp add: triangle_point_def norm_mult cmod_up)
  qed
qed

lemma triangle_nth: "i < n \<Longrightarrow> map triangle_point [0..<n] ! i = triangle_point i"
  by simp

lemma triangle_point_2_nonzero: "triangle_point 2 \<noteq> 0"
  by (simp add: triangle_point_def complex_eq_iff)

lemma triangle_point_5_nonzero: "triangle_point 5 \<noteq> 0"
  by (simp add: triangle_point_def complex_eq_iff)

lemma triangle_indices:
  assumes "6 < n"
  shows "fixed_point_indices (map triangle_point [0..<n]) = Inr (6, 2, 5)"
proof -
  let ?zs = "map triangle_point [0..<n]"
  have ne: "?zs \<noteq> []" using assms by auto
  have len: "length ?zs = n" by simp
  have i1: "first_max (map cmod ?zs) = 6"
    using assms by (intro first_max_unique) (simp_all add: triangle_radius)
  have z1: "?zs ! 6 = triangle_point 6" using assms by (rule triangle_nth)
  have i2: "first_max (masked (map cmod ?zs)
      (mask_near ?zs (triangle_point 6 * rot_plus) (cmod (triangle_point 6)))) = 2"
  proof (rule masked_single)
    show "2 < length ?zs" using assms by simp
    have e: "?zs ! 2 = triangle_point 2" using assms by (intro triangle_nth) simp
    show "cmod (?zs ! 2 - triangle_point 6 * rot_plus) < 2 / 10 * cmod (triangle_point 6)"
      unfolding e by (rule triangle_near_plus)
    show "?zs ! 2 \<noteq> 0" unfolding e by (rule triangle_point_2_nonzero)
    show "\<not> cmod (?zs ! i - triangle_point 6 * rot_plus) < 2 / 10 * cmod (triangle_point 6)"
      if "i < length ?zs" "i \<noteq> 2" for i
    proof -
      have e: "?zs ! i = triangle_point i" using that(1) unfolding len by (rule triangle_nth)
      show ?thesis unfolding e by (rule triangle_far_plus [OF that(2)])
    qed
  qed
  have i3: "first_max (masked (map cmod ?zs)
      (mask_near ?zs (triangle_point 6 * rot_minus) (cmod (triangle_point 6)))) = 5"
  proof (rule masked_single)
    show "5 < length ?zs" using assms by simp
    have e: "?zs ! 5 = triangle_point 5" using assms by (intro triangle_nth) simp
    show "cmod (?zs ! 5 - triangle_point 6 * rot_minus) < 2 / 10 * cmod (triangle_point 6)"
      unfolding e by (rule triangle_near_minus)
    show "?zs ! 5 \<noteq> 0" unfolding e by (rule triangle_point_5_nonzero)
    show "\<not> cmod (?zs ! i - triangle_point 6 * rot_minus) < 2 / 10 * cmod (triangle_point 6)"
      if "i < length ?zs" "i \<noteq> 5" for i
    proof -
      have e: "?zs ! i = triangle_point i" using that(1) unfolding len by (rule triangle_nth)
      show ?thesis unfolding e by (rule triangle_far_minus [OF that(2)])
    qed
  qed
  show ?thesis
    by (simp only: fixed_point_indices_eq [OF ne] i1 z1 i2 i3)
qed

lemma length_triangle_record [simp]: "length (triangle_record n) = n"
  by (simp add: triangle_record_def)

lemma triangle_record_nth:
  "i < n \<Longrightarrow> triangle_record n ! i
     = \<lparr>s_x = 3 / 100 * Re (triangle_point i), s_px = 3 / 100 * Im (triangle_point i), s_state = 1\<rparr>"
  by (simp add: triangle_record_def)

lemma triangle_fixed_points:
  assumes "6 < n"
  shows "fixed_points (triangle_record n)
           (get_normalized_coordinates triangle_line (triangle_record n))
         = Inr ([0, - 2598 / 100000, 2598 / 100000], [3 / 100, - 15 / 1000, - 15 / 1000],
                [0, - 866 / 1000, 866 / 1000], [1, - 1 / 2, - 1 / 2])"
proof -
  have r: "triangle_record n ! 6 = \<lparr>s_x = 0, s_px = 3 / 100, s_state = 1\<rparr>"
    "triangle_record n ! 2 = \<lparr>s_x = - 2598 / 100000, s_px = - 15 / 1000, s_state = 1\<rparr>"
    "triangle_record n ! 5 = \<lparr>s_x = 2598 / 100000, s_px = - 15 / 1000, s_state = 1\<rparr>"
    using assms by (simp_all add: triangle_record_nth triangle_point_def)
  have z: "map triangle_point [0..<n] ! 6 = Complex 0 1"
    "map triangle_point [0..<n] ! 2 = Complex (- 866 / 1000) (- 1 / 2)"
    "map triangle_point [0..<n] ! 5 = Complex (866 / 1000) (- 1 / 2)"
    using assms by (simp_all add: triangle_point_def)
  show ?thesis
    unfolding fixed_points_def Let_def triangle_normalized triangle_indices [OF assms]
    using assms by (simp add: fancy_index_def r z)
qed

lemma triangle_closest:
  "i \<noteq> 5 \<Longrightarrow> \<bar>3 / 100 * Re (triangle_point 5) - x_septum\<bar>
                 < \<bar>3 / 100 * Re (triangle_point i) - x_septum\<bar>"
  by (simp add: triangle_point_def x_septum_def)

lemma triangle_argmin:
  assumes "5 < n"
  shows "argmin (map (\<lambda>v. \<bar>v - x_septum\<bar>) (map s_x (triangle_record n))) = Inr 5"
proof -
  let ?vs = "map (\<lambda>v. \<bar>v - x_septum\<bar>) (map s_x (triangle_record n))"
  have nth: "?vs ! i = \<bar>3 / 100 * Re (triangle_point i) - x_septum\<bar>" if "i < n" for i
    using that by (simp add: triangle_record_nth)
  have "first_min ?vs = 5"
  proof (rule first_min_unique)
    show "5 < length ?vs" using assms by simp
    show "?vs ! 5 < ?vs ! i" if "i < length ?vs" "i \<noteq> 5" for i
    proof -
      have "i < n" using that(1) by simp
      then show ?thesis using assms triangle_closest [OF that(2)] by (simp only: nth)
    qed
  qed
  moreover have "length ?vs \<noteq> 0" using assms by simp
  then have "?vs \<noteq> []" by (simp only: length_0_conv not_False_eq_True)
  ultimately show ?thesis by (simp add: argmin_def)
qed

lemma triangle_septum_window:
  assumes "8 < n"
  shows "septum_window (triangle_record n) = Inr ((- 2598 / 100000, 0), (- 15 / 1000, 0))"
proof -
  have a: "argmin (map (\<lambda>v. \<bar>v - x_septum\<bar>) (map s_x (triangle_record n))) = Inr 5"
    using assms by (intro triangle_argmin) simp
  have r: "triangle_record n ! 2 = \<lparr>s_x = - 2598 / 100000, s_px = - 15 / 1000, s_state = 1\<rparr>"
    "triangle_record n ! 8 = \<lparr>s_x = 0, s_px = 0, s_state = 1\<rparr>"
    using assms by (simp_all add: triangle_record_nth triangle_point_def)
  show ?thesis
    unfolding septum_window_def Let_def a
    using assms by (simp add: np_index_def r)
qed

lemma boundary_curve_ok:
  assumes "length nc_triangle = length rec_triangle"
  shows "\<exists>curve. boundary_curve rec_triangle nc_triangle = Inr curve"
proof -
  have "\<forall>i \<in> set (argsort (map (\<lambda>s. angle (to_complex s)) nc_triangle)). i < length rec_triangle"
    using assms by (simp add: set_argsort)
  then show ?thesis
    using assms by (simp add: boundary_curve_def Let_def fancy_index_ok)
qed

lemma triangle_bracket:
  "characterize_bracket triangle_line False record norm_coords b = Inr (triangle_result, None)"
proof -
  have n: "8 < num_turns" "6 < num_turns" by (simp_all add: num_turns_def)
  have t: "track triangle_line x0 num_turns = triangle_record num_turns" for x0
    by (simp add: triangle_line_def)
  obtain curve where c: "boundary_curve (triangle_record num_turns)
      (get_normalized_coordinates triangle_line (triangle_record num_turns)) = Inr curve"
    using boundary_curve_ok [of "get_normalized_coordinates triangle_line (triangle_record num_turns)"
        "triangle_record num_turns"] by auto
  show ?thesis
    unfolding characterize_bracket_def Let_def t septum_fit_def
      triangle_septum_window [OF n(1)] triangle_fixed_points [OF n(2)] c
    by (simp add: polyfit_deg1_def stable_area_of_def det3_def triangle_result_def)
qed

lemma triangle_returns:
  "characterize_phase_space triangle_line False = Some (Inr (triangle_result, None))"
proof -
  from bisect_rule [where I = "\<lambda>b. True" and f = "unstable_at triangle_line", OF initial_width]
  obtain b where "bisect (unstable_at triangle_line) (0, 3 / 100) = Some b" by blast
  then show ?thesis
    by (simp add: characterize_phase_space_def Let_def triangle_bracket)
qed

text \<open>
  The end-to-end run on the triangle tracker: the call returns
  \<open>triangle_result\<close>, both masks hit, and the second and third fixed points
  are within \<open>arcsin 0.2\<close> of 120 degrees from the first.
\<close>

theorem returned_fixed_point_set_witness:
  "characterize_phase_space triangle_line False = Some (Inr (triangle_result, None))
   \<and> cmod (triangle_point 2 - triangle_point 6 * rot_plus) < 2 / 10 * cmod (triangle_point 6)
   \<and> cmod (triangle_point 5 - triangle_point 6 * rot_minus) < 2 / 10 * cmod (triangle_point 6)
   \<and> \<bar>Arg (Complex (- 866 / 1000) (- 1 / 2) / (Complex 0 1 * rot_plus))\<bar> \<le> arcsin (2 / 10)
   \<and> \<bar>Arg (Complex (866 / 1000) (- 1 / 2) / (Complex 0 1 * rot_minus))\<bar> \<le> arcsin (2 / 10)
   \<and> \<bar>Arg (Complex (866 / 1000) (- 1 / 2) / (Complex (- 866 / 1000) (- 1 / 2) * rot_plus))\<bar>
       \<le> 2 * arcsin (2 / 10)"
proof -
  let ?zs = "map triangle_point [0..<num_turns]"
  have t: "track triangle_line x0 num_turns = triangle_record num_turns" for x0
    by (simp add: triangle_line_def)
  have n: "2 < num_turns" "5 < num_turns" "6 < num_turns" by (simp_all add: num_turns_def)
  note th = returned_fixed_point_set [OF triangle_returns, unfolded Let_def t triangle_normalized]
  from th obtain i_fp1 i_fp2 i_fp3 where
    xn: "x_norm_fixed_points triangle_result
           = [Re (?zs ! i_fp1), Re (?zs ! i_fp2), Re (?zs ! i_fp3)]"
    and pxn: "px_norm_fixed_points triangle_result
           = [Im (?zs ! i_fp1), Im (?zs ! i_fp2), Im (?zs ! i_fp3)]"
    and plus: "\<forall>j < length ?zs.
          cmod (?zs ! j - ?zs ! i_fp1 * rot_plus) < 2 / 10 * cmod (?zs ! i_fp1)
          \<longrightarrow> cmod (?zs ! i_fp2 - ?zs ! i_fp1 * rot_plus) < 2 / 10 * cmod (?zs ! i_fp1)
              \<and> \<bar>Arg (?zs ! i_fp2 / (?zs ! i_fp1 * rot_plus))\<bar> \<le> arcsin (2 / 10)
              \<and> cmod (?zs ! j) \<le> cmod (?zs ! i_fp2)"
    and minus: "\<forall>j < length ?zs.
          cmod (?zs ! j - ?zs ! i_fp1 * rot_minus) < 2 / 10 * cmod (?zs ! i_fp1)
          \<longrightarrow> cmod (?zs ! i_fp3 - ?zs ! i_fp1 * rot_minus) < 2 / 10 * cmod (?zs ! i_fp1)
              \<and> \<bar>Arg (?zs ! i_fp3 / (?zs ! i_fp1 * rot_minus))\<bar> \<le> arcsin (2 / 10)
              \<and> cmod (?zs ! j) \<le> cmod (?zs ! i_fp3)"
    and both: "(\<exists>j < length ?zs.
            cmod (?zs ! j - ?zs ! i_fp1 * rot_plus) < 2 / 10 * cmod (?zs ! i_fp1))
          \<and> (\<exists>j < length ?zs.
            cmod (?zs ! j - ?zs ! i_fp1 * rot_minus) < 2 / 10 * cmod (?zs ! i_fp1))
          \<longrightarrow> \<bar>Arg (?zs ! i_fp3 / (?zs ! i_fp2 * rot_plus))\<bar> \<le> 2 * arcsin (2 / 10)"
    by blast
  have z1: "?zs ! i_fp1 = Complex 0 1"
    and z2: "?zs ! i_fp2 = Complex (- 866 / 1000) (- 1 / 2)"
    and z3: "?zs ! i_fp3 = Complex (866 / 1000) (- 1 / 2)"
    using xn pxn by (simp_all add: triangle_result_def complex_eq_iff)
  have p6: "triangle_point 6 = Complex 0 1" by (simp add: triangle_point_def)
  have e2: "?zs ! 2 = triangle_point 2" using n(1) by (rule triangle_nth)
  have e5: "?zs ! 5 = triangle_point 5" using n(2) by (rule triangle_nth)
  have hp: "cmod (?zs ! 2 - ?zs ! i_fp1 * rot_plus) < 2 / 10 * cmod (?zs ! i_fp1)"
    unfolding e2 z1 using triangle_near_plus by (simp only: p6)
  have hm: "cmod (?zs ! 5 - ?zs ! i_fp1 * rot_minus) < 2 / 10 * cmod (?zs ! i_fp1)"
    unfolding e5 z1 using triangle_near_minus by (simp only: p6)
  have l: "2 < length ?zs" "5 < length ?zs" using n by simp_all
  with plus minus hp hm have
    "\<bar>Arg (?zs ! i_fp2 / (?zs ! i_fp1 * rot_plus))\<bar> \<le> arcsin (2 / 10)"
    "\<bar>Arg (?zs ! i_fp3 / (?zs ! i_fp1 * rot_minus))\<bar> \<le> arcsin (2 / 10)"
    by blast+
  moreover from both l hp hm have
    "\<bar>Arg (?zs ! i_fp3 / (?zs ! i_fp2 * rot_plus))\<bar> \<le> 2 * arcsin (2 / 10)"
    by blast
  ultimately have
    "\<bar>Arg (Complex (- 866 / 1000) (- 1 / 2) / (Complex 0 1 * rot_plus))\<bar> \<le> arcsin (2 / 10)"
    "\<bar>Arg (Complex (866 / 1000) (- 1 / 2) / (Complex 0 1 * rot_minus))\<bar> \<le> arcsin (2 / 10)"
    "\<bar>Arg (Complex (866 / 1000) (- 1 / 2) / (Complex (- 866 / 1000) (- 1 / 2) * rot_plus))\<bar>
       \<le> 2 * arcsin (2 / 10)"
    by (simp_all only: z1 z2 z3)
  with triangle_returns triangle_near_plus triangle_near_minus show ?thesis by blast
qed

end
